theory Spec2Isabelle
  imports Complex_Main
begin

section \<open>Numbers\<close>

text \<open>
  The routing service computes with JavaScript numbers. They are modelled as exact
  reals: rounding is not modelled, so every statement below is about the arithmetic the
  source writes down, carried out exactly (the one exception is
  \<open>calculateEdgeWeight_rounded\<close>, which takes the rounding as a parameter). The source uses the value \<open>Infinity\<close> in two
  places (the initial minimum of \<open>findNearestNode\<close> and the default of a missing or
  falsy score in \<open>aStarPathfinding\<close>); there a number is a \<open>number\<close>: a real or
  \<open>Infinity\<close>.
\<close>

datatype number = Fin real | Infinity

text \<open>
  \<open>x || Infinity\<close> for the result \<open>x\<close> of \<open>Map.get\<close>: \<open>undefined\<close> (no entry) and
  the number \<open>0\<close> are both falsy, so both give \<open>Infinity\<close>.
\<close>

fun orInfinity :: "real option \<Rightarrow> number" where
  "orInfinity None = Infinity"
| "orInfinity (Some x) = (if x = 0 then Infinity else Fin x)"

text \<open>\<open>a + w\<close> for a finite \<open>w\<close>, and \<open>a < b\<close>.\<close>

fun plus_number :: "number \<Rightarrow> real \<Rightarrow> number" where
  "plus_number (Fin a) w = Fin (a + w)"
| "plus_number Infinity w = Infinity"

fun less_number :: "number \<Rightarrow> number \<Rightarrow> bool" where
  "less_number (Fin a) (Fin b) = (a < b)"
| "less_number (Fin a) Infinity = True"
| "less_number Infinity b = False"

text \<open>\<open>Math.round\<close>: the integer nearest to \<open>x\<close>, halves rounded up.\<close>

definition Math_round :: "real \<Rightarrow> real" where
  "Math_round x = of_int \<lfloor>x + 1 / 2\<rfloor>"

text \<open>
  \<open>Math.atan2(y, x)\<close>: the angle of the point \<open>(x, y)\<close>, in \<open>[-pi, pi]\<close> (signed zeros
  are not modelled).
\<close>

definition Math_atan2 :: "real \<Rightarrow> real \<Rightarrow> real" where
  "Math_atan2 y x =
     (if 0 < x then arctan (y / x)
      else if x < 0 then (if 0 \<le> y then arctan (y / x) + pi else arctan (y / x) - pi)
      else if 0 < y then pi / 2
      else if y < 0 then - (pi / 2)
      else 0)"

section \<open>Geodesy utilities\<close>

definition toRadians :: "real \<Rightarrow> real" where
  "toRadians degrees = degrees * pi / 180"

definition toDegrees :: "real \<Rightarrow> real" where
  "toDegrees radians = radians * 180 / pi"

text \<open>
  The haversine formula. \<open>haversine_a\<close> is the term \<open>a\<close> of the source. Computed
  exactly it lies between 0 and 1, and it is 1 for antipodal points; in double
  arithmetic it can exceed 1 there by a rounding error, and then \<open>Math.sqrt(1 - a)\<close>
  and the distance are \<open>NaN\<close>. That case is outside this model.
\<close>

definition haversine_a :: "real \<Rightarrow> real \<Rightarrow> real \<Rightarrow> real \<Rightarrow> real" where
  "haversine_a lat1 lng1 lat2 lng2 =
     (let dLat = toRadians (lat2 - lat1);
          dLng = toRadians (lng2 - lng1)
      in sin (dLat / 2) * sin (dLat / 2) +
         cos (toRadians lat1) * cos (toRadians lat2) *
         sin (dLng / 2) * sin (dLng / 2))"

definition haversineDistance :: "real \<Rightarrow> real \<Rightarrow> real \<Rightarrow> real \<Rightarrow> real" where
  "haversineDistance lat1 lng1 lat2 lng2 =
     (let R = 6371;
          a = haversine_a lat1 lng1 lat2 lng2;
          c = 2 * Math_atan2 (sqrt a) (sqrt (1 - a))
      in R * c)"

definition calculateBearing :: "real \<Rightarrow> real \<Rightarrow> real \<Rightarrow> real \<Rightarrow> real" where
  "calculateBearing lat1 lng1 lat2 lng2 =
     (let dLng = toRadians (lng2 - lng1);
          lat1Rad = toRadians lat1;
          lat2Rad = toRadians lat2;
          y = sin dLng * cos lat2Rad;
          x = cos lat1Rad * sin lat2Rad - sin lat1Rad * cos lat2Rad * cos dLng
      in toDegrees (Math_atan2 y x))"

text \<open>
  \<open>normalizeAngle\<close> is two loops, one after the other:
  \<^verbatim>\<open>while (angle > 180) angle -= 360; while (angle < -180) angle += 360;\<close>
\<close>

function normalize_down :: "real \<Rightarrow> real" where
  "normalize_down angle = (if angle > 180 then normalize_down (angle - 360) else angle)"
  by pat_completeness auto
termination
proof (relation "measure (\<lambda>a. nat \<lceil>(a - 180) / 360\<rceil>)")
  show "wf (measure (\<lambda>a. nat \<lceil>(a - 180) / 360\<rceil>))" by simp
next
  fix angle :: real
  assume a: "180 < angle"
  have "(angle - 360 - 180) / 360 = (angle - 180) / 360 - 1" by (simp add: field_simps)
  then have "\<lceil>(angle - 360 - 180) / 360\<rceil> = \<lceil>(angle - 180) / 360 - 1\<rceil>" by (rule arg_cong)
  then have "\<lceil>(angle - 360 - 180) / 360\<rceil> = \<lceil>(angle - 180) / 360\<rceil> - 1" by simp
  moreover have "0 < \<lceil>(angle - 180) / 360\<rceil>" using a by simp
  ultimately show "(angle - 360, angle) \<in> measure (\<lambda>a. nat \<lceil>(a - 180) / 360\<rceil>)" by simp
qed

function normalize_up :: "real \<Rightarrow> real" where
  "normalize_up angle = (if angle < - 180 then normalize_up (angle + 360) else angle)"
  by pat_completeness auto
termination
proof (relation "measure (\<lambda>a. nat \<lceil>(- 180 - a) / 360\<rceil>)")
  show "wf (measure (\<lambda>a. nat \<lceil>(- 180 - a) / 360\<rceil>))" by simp
next
  fix angle :: real
  assume a: "angle < - 180"
  have "(- 180 - (angle + 360)) / 360 = (- 180 - angle) / 360 - 1" by (simp add: field_simps)
  then have "\<lceil>(- 180 - (angle + 360)) / 360\<rceil> = \<lceil>(- 180 - angle) / 360 - 1\<rceil>" by (rule arg_cong)
  then have "\<lceil>(- 180 - (angle + 360)) / 360\<rceil> = \<lceil>(- 180 - angle) / 360\<rceil> - 1" by simp
  moreover have "0 < \<lceil>(- 180 - angle) / 360\<rceil>" using a by simp
  ultimately show "(angle + 360, angle) \<in> measure (\<lambda>a. nat \<lceil>(- 180 - a) / 360\<rceil>)" by simp
qed

declare normalize_down.simps [simp del] normalize_up.simps [simp del]

definition normalizeAngle :: "real \<Rightarrow> real" where
  "normalizeAngle angle = normalize_up (normalize_down angle)"

section \<open>The graph\<close>

text \<open>
  A \<open>GraphNode\<close> is an object with an id, a coordinate, a type and its outgoing
  connections; a connection holds a reference to its target node. References are
  natural numbers, and a heap gives the object behind each reference. The id
  \<^verbatim>\<open>node_k\<close> is represented by the number \<open>k\<close>.
\<close>

record Point =
  lat :: real
  lng :: real

record Connection =
  node :: nat
  distance :: real
  trafficLevel :: real
  accidentRisk :: real

record GraphNode = Point +
  nid :: nat
  ntype :: string
  connections :: "Connection list"

type_synonym heap = "nat \<Rightarrow> GraphNode"

definition newGraphNode :: "nat \<Rightarrow> real \<Rightarrow> real \<Rightarrow> GraphNode" where
  "newGraphNode i la lo =
     \<lparr>lat = la, lng = lo, nid = i, ntype = ''intersection'', connections = []\<rparr>"

text \<open>
  A graph is the array of its nodes; the reference to a node of the array is its
  position.
\<close>

definition heap_of :: "GraphNode list \<Rightarrow> heap" where
  "heap_of g r = (if r < length g then g ! r else newGraphNode r 0 0)"

section \<open>The pathfinder\<close>

record Options =
  prioritizeSafety :: bool
  avoidTraffic :: bool
  maxDistance :: "real option"
  emergencyType :: string

definition calculateEdgeWeight :: "Connection \<Rightarrow> Options \<Rightarrow> real" where
  "calculateEdgeWeight connection options =
     (let weight = distance connection;
          weight = (if avoidTraffic options
                    then weight * (1 + trafficLevel connection * 2) else weight);
          weight = (if prioritizeSafety options
                    then weight * (1 + accidentRisk connection * 3) else weight);
          weight = (if emergencyType options = ''fire''
                    then weight * (1 + accidentRisk connection) else weight)
      in weight)"

text \<open>
  The order of the three multiplications shows only in the rounding of the products. In
  \<open>calculateEdgeWeight_rounded\<close> every sum and every product of the source is one
  operation of the number format: its exact result, rounded by \<open>fl\<close> (overflow is not
  modelled). With the identity for \<open>fl\<close> it is \<open>calculateEdgeWeight\<close>.
\<close>

definition calculateEdgeWeight_rounded :: "(real \<Rightarrow> real) \<Rightarrow> Connection \<Rightarrow> Options \<Rightarrow> real" where
  "calculateEdgeWeight_rounded fl connection options =
     (let weight = distance connection;
          weight = (if avoidTraffic options
                    then (let trafficMultiplier = fl (1 + fl (trafficLevel connection * 2))
                          in fl (weight * trafficMultiplier))
                    else weight);
          weight = (if prioritizeSafety options
                    then (let safetyMultiplier = fl (1 + fl (accidentRisk connection * 3))
                          in fl (weight * safetyMultiplier))
                    else weight);
          weight = (if emergencyType options = ''fire''
                    then fl (weight * fl (1 + accidentRisk connection)) else weight)
      in weight)"

definition heuristic :: "'a Point_scheme \<Rightarrow> 'b Point_scheme \<Rightarrow> real" where
  "heuristic nodeA nodeB = haversineDistance (lat nodeA) (lng nodeA) (lat nodeB) (lng nodeB)"

text \<open>
  The priority queue: \<open>enqueue\<close> pushes the item and sorts the array by priority (the
  sort is stable); \<open>dequeue\<close> takes the first item.
\<close>

type_synonym PriorityQueue = "(nat \<times> real) list"

definition enqueue :: "PriorityQueue \<Rightarrow> nat \<Rightarrow> real \<Rightarrow> PriorityQueue" where
  "enqueue items item priority = sort_key snd (items @ [(item, priority)])"

record Route =
  nodes :: "nat list"
  conns :: "Connection list"

text \<open>
  \<open>reconstructPath\<close> walks the predecessor map back from the goal. The loop runs as
  long as the current node has an entry, so it is a partial function: \<open>None\<close> is a
  walk that never ends.
\<close>

partial_function (option) reconstruct_loop ::
  "heap \<Rightarrow> (nat \<rightharpoonup> nat \<times> Connection) \<Rightarrow> nat \<Rightarrow> nat list \<Rightarrow> Connection list \<Rightarrow> Route option"
where
  "reconstruct_loop h cameFrom current path connections' =
     (case cameFrom (nid (h current)) of
        None \<Rightarrow> Some \<lparr>nodes = path, conns = connections'\<rparr>
      | Some (n, connection) \<Rightarrow>
          reconstruct_loop h cameFrom n (n # path) (connection # connections'))"

definition reconstructPath :: "heap \<Rightarrow> (nat \<rightharpoonup> nat \<times> Connection) \<Rightarrow> nat \<Rightarrow> Route option" where
  "reconstructPath h cameFrom current = reconstruct_loop h cameFrom current [current] []"

record AStar =
  openSet :: PriorityQueue
  closedSet :: "nat set"
  cameFrom :: "nat \<rightharpoonup> nat \<times> Connection"
  gScore :: "nat \<rightharpoonup> real"
  fScore :: "nat \<rightharpoonup> real"

text \<open>
  The body of the loop over the connections of the current node. A tentative score of
  \<open>Infinity\<close> is less than nothing, so only a finite one relaxes the neighbour.
\<close>

fun relax :: "heap \<Rightarrow> Options \<Rightarrow> nat \<Rightarrow> nat \<Rightarrow> Connection list \<Rightarrow> AStar \<Rightarrow> AStar" where
  "relax h options endNode current [] s = s"
| "relax h options endNode current (connection # rest) s =
     (let neighbor = node connection in
      if nid (h neighbor) \<in> closedSet s then relax h options endNode current rest s
      else
        let edgeWeight = calculateEdgeWeight connection options;
            tentativeGScore = plus_number (orInfinity (gScore s (nid (h current)))) edgeWeight
        in if less_number tentativeGScore (orInfinity (gScore s (nid (h neighbor))))
           then (case tentativeGScore of
                   Infinity \<Rightarrow> relax h options endNode current rest s
                 | Fin t \<Rightarrow>
                     let f = t + heuristic (h neighbor) (h endNode) in
                     relax h options endNode current rest
                       (s\<lparr>cameFrom := (cameFrom s)(nid (h neighbor) \<mapsto> (current, connection)),
                          gScore := (gScore s)(nid (h neighbor) \<mapsto> t),
                          fScore := (fScore s)(nid (h neighbor) \<mapsto> f),
                          openSet := enqueue (openSet s) neighbor f\<rparr>))
           else relax h options endNode current rest s)"

text \<open>
  The main loop: \<open>Some None\<close> is the source's \<open>return null\<close> (no path), \<open>Some (Some r)\<close>
  a route, and \<open>None\<close> a search that never returns.
\<close>

partial_function (option) astar_loop ::
  "heap \<Rightarrow> Options \<Rightarrow> nat \<Rightarrow> AStar \<Rightarrow> Route option option"
where
  "astar_loop h options endNode s =
     (case openSet s of
        [] \<Rightarrow> Some None
      | (current, priority) # rest \<Rightarrow>
          if nid (h current) = nid (h endNode)
          then map_option Some (reconstructPath h (cameFrom s) current)
          else astar_loop h options endNode
                 (relax h options endNode current (connections (h current))
                    (s\<lparr>openSet := rest,
                       closedSet := insert (nid (h current)) (closedSet s)\<rparr>)))"

definition aStarPathfinding :: "heap \<Rightarrow> nat \<Rightarrow> nat \<Rightarrow> Options \<Rightarrow> Route option option" where
  "aStarPathfinding h startNode endNode options =
     (let f0 = heuristic (h startNode) (h endNode) in
      astar_loop h options endNode
        \<lparr>openSet = enqueue [] startNode f0,
         closedSet = {},
         cameFrom = Map.empty,
         gScore = [nid (h startNode) \<mapsto> 0],
         fScore = [nid (h startNode) \<mapsto> f0]\<rparr>)"

text \<open>
  \<open>findNearestNode\<close>: the first node of the array at the least distance from the point,
  \<open>null\<close> for an empty array.
\<close>

fun nearest_loop ::
  "heap \<Rightarrow> 'a Point_scheme \<Rightarrow> nat list \<Rightarrow> nat option \<Rightarrow> number \<Rightarrow> nat option" where
  "nearest_loop h point [] nearest minDist = nearest"
| "nearest_loop h point (r # rs) nearest minDist =
     (let dist = haversineDistance (lat point) (lng point) (lat (h r)) (lng (h r)) in
      if less_number (Fin dist) minDist
      then nearest_loop h point rs (Some r) (Fin dist)
      else nearest_loop h point rs nearest minDist)"

definition findNearestNode :: "GraphNode list \<Rightarrow> 'a Point_scheme \<Rightarrow> nat option" where
  "findNearestNode graph point =
     nearest_loop (heap_of graph) point [0..<length graph] None Infinity"

section \<open>Instructions and metadata\<close>

text \<open>
  The text of the start instruction holds the coordinate of the second node, printed with
  four decimals; the model keeps the two numbers and does not print them.
\<close>

datatype InstructionText = HeadTowards real real | Literal string

record Instruction =
  step :: nat
  action :: string
  itext :: InstructionText
  idistance :: real
  coordinates :: "Point option"

text \<open>
  The classification of a turn angle, as the loop over the intermediate nodes writes it:
  the action and the text start as \<open>straight\<close>, and the three tests overwrite them.
\<close>

definition turnAction :: "real \<Rightarrow> string \<times> string" where
  "turnAction turnAngle =
     (if turnAngle > 30 \<and> turnAngle < 150 then (''turn_right'', ''Turn right'')
      else if turnAngle < - 30 \<and> turnAngle > - 150 then (''turn_left'', ''Turn left'')
      else if \<bar>turnAngle\<bar> \<ge> 150 then (''u_turn'', ''Make a U-turn'')
      else (''straight'', ''Continue straight''))"

definition turnAngleAt :: "heap \<Rightarrow> nat list \<Rightarrow> nat \<Rightarrow> real" where
  "turnAngleAt h ns i =
     (let prev = h (ns ! (i - 1));
          curr = h (ns ! i);
          next = h (ns ! (i + 1));
          bearing1 = calculateBearing (lat prev) (lng prev) (lat curr) (lng curr);
          bearing2 = calculateBearing (lat curr) (lng curr) (lat next) (lng next)
      in normalizeAngle (bearing2 - bearing1))"

text \<open>
  \<open>connections[i]?.distance || 0\<close>: the distance of the \<open>i\<close>-th connection, \<open>0\<close> when
  there is none (and a distance of \<open>0\<close> gives \<open>0\<close> either way).
\<close>

definition distanceAt :: "Connection list \<Rightarrow> nat \<Rightarrow> real" where
  "distanceAt cs i = (if i < length cs then distance (cs ! i) else 0)"

definition intermediateInstruction :: "heap \<Rightarrow> Route \<Rightarrow> nat \<Rightarrow> Instruction" where
  "intermediateInstruction h route i =
     (let curr = h (nodes route ! i);
          turnAngle = turnAngleAt h (nodes route) i
      in \<lparr>step = i + 1,
          action = fst (turnAction turnAngle),
          itext = Literal (snd (turnAction turnAngle)),
          idistance = distanceAt (conns route) i,
          coordinates = Some \<lparr>lat = lat curr, lng = lng curr\<rparr>\<rparr>)"

definition generateInstructions :: "heap \<Rightarrow> Route \<Rightarrow> Instruction list" where
  "generateInstructions h route =
     (if length (nodes route) < 2 then []
      else
        let start = \<lparr>step = 1, action = ''start'',
                     itext = HeadTowards (lat (h (nodes route ! 1))) (lng (h (nodes route ! 1))),
                     idistance = distanceAt (conns route) 0,
                     coordinates = None\<rparr>;
            instructions =
              start # map (intermediateInstruction h route) [1..<length (nodes route) - 1]
        in instructions @
           [\<lparr>step = length instructions + 1, action = ''arrive'',
             itext = Literal ''You have arrived at your destination'',
             idistance = 0, coordinates = None\<rparr>])"

text \<open>
  The sums that the loop of \<open>calculateRouteMetadata\<close> accumulates. The time of a
  connection is its distance divided by the speed \<open>30 * (1 - trafficLevel * 0.5)\<close>; a
  traffic level of 2, where the speed is 0, lies outside the range of traffic levels and
  is not modelled.
\<close>

record Totals =
  totalDistance :: real
  totalTime :: real
  avgTraffic :: real
  maxRisk :: real

definition addConnection :: "Totals \<Rightarrow> Connection \<Rightarrow> Totals" where
  "addConnection t conn =
     (let speedKmh = 30 * (1 - trafficLevel conn * 0.5) in
      \<lparr>totalDistance = totalDistance t + distance conn,
       totalTime = totalTime t + (distance conn / speedKmh) * 60,
       avgTraffic = avgTraffic t + trafficLevel conn,
       maxRisk = max (maxRisk t) (accidentRisk conn)\<rparr>)"

record Metadata =
  totalDistanceKm :: real
  estimatedTimeMin :: real
  waypoints :: nat
  avgTrafficLevel :: real
  maxAccidentRisk :: real
  safetyScore :: real
  shortestPath :: bool
  lowTraffic :: bool
  safePassage :: bool
  minimalTime :: bool

definition calculateRouteMetadata :: "Route \<Rightarrow> Metadata" where
  "calculateRouteMetadata route =
     (let t = foldl addConnection
                \<lparr>totalDistance = 0, totalTime = 0, avgTraffic = 0, maxRisk = 0\<rparr> (conns route);
          avg = (if length (conns route) > 0
                 then avgTraffic t / real (length (conns route)) else 0);
          score = Math_round ((1 - maxRisk t) * 100)
      in \<lparr>totalDistanceKm = Math_round (totalDistance t * 100) / 100,
          estimatedTimeMin = Math_round (totalTime t),
          waypoints = length (nodes route),
          avgTrafficLevel = Math_round (avg * 100) / 100,
          maxAccidentRisk = Math_round (maxRisk t * 100) / 100,
          safetyScore = score,
          shortestPath = True,
          lowTraffic = (avg < 0.3),
          safePassage = (score > 70),
          minimalTime = (totalTime t < 30)\<rparr>)"

text \<open>The line string of the route: one \<open>[lng, lat]\<close> pair per node.\<close>

definition convertToGeoJSON :: "heap \<Rightarrow> Route \<Rightarrow> (real \<times> real) list" where
  "convertToGeoJSON h route = map (\<lambda>r. (lng (h r), lat (h r))) (nodes route)"

section \<open>Computing a route\<close>

datatype RouteResult =
  Success (route: "(real \<times> real) list") (instructions: "Instruction list") (metadata: Metadata)
| Failure (error: string)

text \<open>
  \<open>calculateOptimalRoute\<close>, from the graph that \<open>buildRouteGraph\<close> returned for the two
  coordinates (a cached graph or a fresh one). Every exception raised on the way is
  caught and becomes a failure with the exception's message. The outer \<open>None\<close> is a call
  that does not return.
\<close>

definition calculateOptimalRoute ::
  "GraphNode list \<Rightarrow> 'a Point_scheme \<Rightarrow> 'b Point_scheme \<Rightarrow> Options \<Rightarrow> RouteResult option" where
  "calculateOptimalRoute graph start end' preferences =
     (case (findNearestNode graph start, findNearestNode graph end') of
        (Some startNode, Some endNode) \<Rightarrow>
          (case aStarPathfinding (heap_of graph) startNode endNode preferences of
             None \<Rightarrow> None
           | Some None \<Rightarrow> Some (Failure ''No valid route found'')
           | Some (Some r) \<Rightarrow>
               Some (Success (convertToGeoJSON (heap_of graph) r)
                             (generateInstructions (heap_of graph) r)
                             (calculateRouteMetadata r)))
      | _ \<Rightarrow> Some (Failure ''Could not find valid route endpoints''))"

section \<open>The grid graph builder\<close>

record Bounds =
  minLat :: real
  maxLat :: real
  minLng :: real
  maxLng :: real

definition calculateBounds :: "'a Point_scheme \<Rightarrow> 'b Point_scheme \<Rightarrow> real \<Rightarrow> Bounds" where
  "calculateBounds start end' buffer =
     \<lparr>minLat = min (lat start) (lat end') - buffer,
      maxLat = max (lat start) (lat end') + buffer,
      minLng = min (lng start) (lng end') - buffer,
      maxLng = max (lng start) (lng end') + buffer\<rparr>"

text \<open>
  The two nested loops that create the nodes. A loop with a step that is not positive
  never ends, so both are partial functions. The counter \<open>nodeId\<close> is the number of
  nodes created so far. The additions \<open>lat += gridSize\<close> and \<open>lng += gridSize\<close> are
  exact here; in double arithmetic the running sums carry rounding errors, so that the
  program can leave a loop one iteration earlier or later than the model when a bound
  is a multiple of the step.
\<close>

partial_function (option) grid_lng_loop ::
  "real \<Rightarrow> real \<Rightarrow> real \<Rightarrow> real \<Rightarrow> GraphNode list \<Rightarrow> GraphNode list option"
where
  "grid_lng_loop la lo hi gridSize ns =
     (if lo \<le> hi
      then grid_lng_loop la (lo + gridSize) hi gridSize (ns @ [newGraphNode (length ns) la lo])
      else Some ns)"

partial_function (option) grid_lat_loop ::
  "Bounds \<Rightarrow> real \<Rightarrow> real \<Rightarrow> GraphNode list \<Rightarrow> GraphNode list option"
where
  "grid_lat_loop bounds gridSize la ns =
     (if la \<le> maxLat bounds
      then Option.bind (grid_lng_loop la (minLng bounds) (maxLng bounds) gridSize ns)
             (\<lambda>ns'. grid_lat_loop bounds gridSize (la + gridSize) ns')
      else Some ns)"

text \<open>
  \<open>findNeighbors\<close> returns the nodes of the array within \<open>1.5 * gridSize\<close> of the node,
  the node itself left out; the model returns their positions.
\<close>

definition findNeighbors :: "GraphNode \<Rightarrow> GraphNode list \<Rightarrow> real \<Rightarrow> nat list" where
  "findNeighbors n allNodes gridSize =
     (let maxDistance' = gridSize * 1.5 in
      filter (\<lambda>j. let other = allNodes ! j in
                   nid other \<noteq> nid n \<and>
                   haversineDistance (lat n) (lng n) (lat other) (lng other) \<le> maxDistance')
        [0..<length allNodes])"

text \<open>
  The connections of the node at position \<open>i\<close>. \<open>rnd i k\<close> is the value of
  \<open>Math.random()\<close> for the \<open>k\<close>-th connection of that node.
\<close>

definition connect :: "(nat \<Rightarrow> nat \<Rightarrow> real) \<Rightarrow> GraphNode list \<Rightarrow> real \<Rightarrow> nat \<Rightarrow> Connection list" where
  "connect rnd nodeArray gridSize i =
     (let n = nodeArray ! i;
          neighbors = findNeighbors n nodeArray gridSize
      in map (\<lambda>k. let neighbor = nodeArray ! (neighbors ! k) in
                   \<lparr>node = neighbors ! k,
                    distance = haversineDistance (lat n) (lng n) (lat neighbor) (lng neighbor),
                    trafficLevel = rnd i k * 0.5,
                    accidentRisk = 0.1\<rparr>)
           [0..<length neighbors])"

definition generateGridGraph ::
  "(nat \<Rightarrow> nat \<Rightarrow> real) \<Rightarrow> Bounds \<Rightarrow> real \<Rightarrow> GraphNode list option" where
  "generateGridGraph rnd bounds gridSize =
     Option.bind (grid_lat_loop bounds gridSize (minLat bounds) [])
       (\<lambda>nodeArray.
          Some (map (\<lambda>i. (nodeArray ! i)\<lparr>connections := connect rnd nodeArray gridSize i\<rparr>)
                  [0..<length nodeArray]))"

section \<open>Risk enrichment\<close>

text \<open>
  An accident of the history: its location as a \<open>[lng, lat]\<close> pair and its severity,
  which may be absent. \<open>accident.severity || 5\<close> is \<open>5\<close> for an absent severity and for
  the severity \<open>0\<close>.
\<close>

record Accident =
  location :: "real \<times> real"
  severity :: "real option"

definition severityOr5 :: "Accident \<Rightarrow> real" where
  "severityOr5 accident =
     (case severity accident of None \<Rightarrow> 5 | Some s \<Rightarrow> if s = 0 then 5 else s)"

text \<open>
  The loop over the accidents for one edge: the count of the accidents within 200 metres
  of the edge's centre and the sum of their severities. \<open>turf_distance\<close> is the
  distance function of the geometry library, in metres, on \<open>[lng, lat]\<close> pairs.
\<close>

fun nearbyLoop ::
  "(real \<times> real \<Rightarrow> real \<times> real \<Rightarrow> real) \<Rightarrow> real \<times> real \<Rightarrow> Accident list \<Rightarrow> nat \<times> real \<Rightarrow> nat \<times> real"
where
  "nearbyLoop turf_distance edgePoint [] (nearbyAccidents, totalSeverity) =
     (nearbyAccidents, totalSeverity)"
| "nearbyLoop turf_distance edgePoint (accident # rest) (nearbyAccidents, totalSeverity) =
     (if turf_distance edgePoint (location accident) < 200
      then nearbyLoop turf_distance edgePoint rest
             (nearbyAccidents + 1, totalSeverity + severityOr5 accident)
      else nearbyLoop turf_distance edgePoint rest (nearbyAccidents, totalSeverity))"

definition enrichConnection ::
  "(real \<times> real \<Rightarrow> real \<times> real \<Rightarrow> real) \<Rightarrow> GraphNode list \<Rightarrow> Accident list \<Rightarrow>
   GraphNode \<Rightarrow> Connection \<Rightarrow> Connection" where
  "enrichConnection turf_distance graph accidents n connection =
     (let target = heap_of graph (node connection);
          edgeCenter = \<lparr>lat = (lat n + lat target) / 2, lng = (lng n + lng target) / 2\<rparr>;
          (nearbyAccidents, totalSeverity) =
             nearbyLoop turf_distance (lng edgeCenter, lat edgeCenter) accidents (0, 0)
      in if nearbyAccidents > 0
         then let avgSeverity = totalSeverity / real nearbyAccidents in
              connection\<lparr>accidentRisk := min 1 ((real nearbyAccidents * avgSeverity) / 50)\<rparr>
         else connection)"

text \<open>
  \<open>enrichWithAccidentData\<close>: \<open>accidents\<close> is the result of the query of the accident
  history, \<open>None\<close> when the query fails (the failure is caught and logged, and the graph
  stays as it is).
\<close>

definition enrichWithAccidentData ::
  "(real \<times> real \<Rightarrow> real \<times> real \<Rightarrow> real) \<Rightarrow> Accident list option \<Rightarrow>
   GraphNode list \<Rightarrow> GraphNode list" where
  "enrichWithAccidentData turf_distance accidents graph =
     (case accidents of
        None \<Rightarrow> graph
      | Some found \<Rightarrow>
          map (\<lambda>n. n\<lparr>connections :=
                      map (enrichConnection turf_distance graph found n) (connections n)\<rparr>)
            graph)"

text \<open>
  \<open>buildRouteGraph\<close> on a cache miss: the grid over the bounds of the two coordinates
  with a buffer of 0.02 degrees and a step of 0.005 degrees, enriched.
\<close>

definition buildRouteGraph ::
  "(nat \<Rightarrow> nat \<Rightarrow> real) \<Rightarrow> (real \<times> real \<Rightarrow> real \<times> real \<Rightarrow> real) \<Rightarrow> Accident list option \<Rightarrow>
   'a Point_scheme \<Rightarrow> 'b Point_scheme \<Rightarrow> GraphNode list option" where
  "buildRouteGraph rnd turf_distance accidents start end' =
     map_option (enrichWithAccidentData turf_distance accidents)
       (generateGridGraph rnd (calculateBounds start end' 0.02) 0.005)"

section \<open>The route controller\<close>

text \<open>
  The body of a request is a JSON value. Reading a property of a value that is not an
  object, or a property the object does not have, gives \<open>undefined\<close>, which is \<open>None\<close>.
\<close>

datatype json = JNull | JBool bool | JNum real | JStr string | JArr "json list"
  | JObj "(string \<times> json) list"

fun getProp :: "json option \<Rightarrow> string \<Rightarrow> json option" where
  "getProp (Some (JObj fs)) name = map_of fs name"
| "getProp v name = None"

text \<open>The truthiness of a value: \<open>undefined\<close>, \<open>null\<close>, \<open>false\<close>, \<open>0\<close> and \<open>""\<close> are falsy.\<close>

fun truthy :: "json option \<Rightarrow> bool" where
  "truthy None = False"
| "truthy (Some JNull) = False"
| "truthy (Some (JBool b)) = b"
| "truthy (Some (JNum x)) = (x \<noteq> 0)"
| "truthy (Some (JStr s)) = (s \<noteq> [])"
| "truthy (Some (JArr xs)) = True"
| "truthy (Some (JObj fs)) = True"

text \<open>
  The routing service as the controller sees it: its two methods are parameters, and
  every call of one is recorded. A service carries the \<open>[lng, lat]\<close> pair of its location.
\<close>

record Service =
  service_coordinates :: "real \<times> real"
  service_fields :: json

record RoutingService =
  service_findNearestService :: "json option \<Rightarrow> json option \<Rightarrow> nat \<Rightarrow> Service list"
  service_calculateOptimalRoute :: "json option \<Rightarrow> json option \<Rightarrow> json option \<Rightarrow> json option \<Rightarrow> RouteResult"

datatype Call =
  FindNearestService "json option" "json option" nat
| CalculateOptimalRoute "json option" "json option" "json option" "json option"

datatype Payload =
  Errors "string list"
| ErrorMessage string
| NoServicesFound "json option"
| RouteFailed RouteResult
| RouteData RouteResult "json option" "Service list"

record Response =
  status :: nat
  payload :: Payload

definition destinationMap :: "json option \<Rightarrow> json option" where
  "destinationMap emergency =
     (if emergency \<in> Some ` JStr ` {''flood'', ''earthquake'', ''fire'', ''storm''}
      then Some (JStr ''shelter'')
      else if emergency \<in> Some ` JStr ` {''accident'', ''medical''}
      then Some (JStr ''hospital'')
      else if emergency = Some (JStr ''crime'') then Some (JStr ''police'')
      else if emergency = Some (JStr ''fire_emergency'') then Some (JStr ''fire'')
      else None)"

definition locationOf :: "Service \<Rightarrow> json" where
  "locationOf s =
     JObj [(''lat'', JNum (snd (service_coordinates s))),
           (''lng'', JNum (fst (service_coordinates s)))]"

definition autoDetermineDestination ::
  "RoutingService \<Rightarrow> json option \<Rightarrow> json option \<Rightarrow> (json \<times> Service list) option \<times> Call list" where
  "autoDetermineDestination rs userLocation emergency =
     (let serviceType = (if truthy (destinationMap emergency)
                         then destinationMap emergency else Some (JStr ''shelter''));
          services = service_findNearestService rs userLocation serviceType 1;
          calls = [FindNearestService userLocation serviceType 1]
      in case services of
           [] \<Rightarrow> (None, calls)
         | s # rest \<Rightarrow> (Some (locationOf s, services), calls))"

text \<open>
  \<open>calculateRoute\<close>: \<open>errors\<close> is the array of the request's validation errors, \<open>body\<close>
  its body. The result is the response and the calls of the routing service made on the
  way.
\<close>

definition routeTo ::
  "RoutingService \<Rightarrow> json \<Rightarrow> json option \<Rightarrow> Service list \<Rightarrow> Call list \<Rightarrow> Response \<times> Call list" where
  "routeTo rs body destination services calls =
     (let userLocation = getProp (Some body) ''userLocation'';
          emergencyType = getProp (Some body) ''emergencyType'';
          destinationType = getProp (Some body) ''destinationType'';
          preferences = getProp (Some body) ''preferences'';
          routeResult = service_calculateOptimalRoute rs userLocation destination preferences emergencyType;
          calls = calls @ [CalculateOptimalRoute userLocation destination preferences emergencyType]
      in case routeResult of
           Failure e \<Rightarrow> (\<lparr>status = 500, payload = RouteFailed routeResult\<rparr>, calls)
         | Success r i m \<Rightarrow>
             (\<lparr>status = 200, payload = RouteData routeResult destinationType services\<rparr>, calls))"

definition calculateRoute ::
  "RoutingService \<Rightarrow> string list \<Rightarrow> json \<Rightarrow> Response \<times> Call list" where
  "calculateRoute rs errors body =
     (if errors \<noteq> [] then (\<lparr>status = 400, payload = Errors errors\<rparr>, [])
      else
        let userLocation = getProp (Some body) ''userLocation'';
            emergencyType = getProp (Some body) ''emergencyType'';
            destinationType = getProp (Some body) ''destinationType''
        in if \<not> truthy userLocation \<or> \<not> truthy (getProp userLocation ''lat'')
                \<or> \<not> truthy (getProp userLocation ''lng'')
           then (\<lparr>status = 400,
                  payload = ErrorMessage ''Valid user location (lat, lng) is required''\<rparr>, [])
           else if truthy destinationType then
             (let services = service_findNearestService rs userLocation destinationType 3;
                  calls = [FindNearestService userLocation destinationType 3]
              in case services of
                   [] \<Rightarrow> (\<lparr>status = 404, payload = NoServicesFound destinationType\<rparr>, calls)
                 | s # rest \<Rightarrow> routeTo rs body (Some (locationOf s)) services calls)
           else if truthy (getProp (Some body) ''destination'')
           then routeTo rs body (getProp (Some body) ''destination'') [] []
           else
             (case autoDetermineDestination rs userLocation emergencyType of
                (None, calls) \<Rightarrow>
                  (\<lparr>status = 404,
                    payload = ErrorMessage ''Could not determine appropriate destination''\<rparr>, calls)
              | (Some (destination, services), calls) \<Rightarrow>
                  routeTo rs body (Some destination) services calls))"

section \<open>Auxiliary notions\<close>

text \<open>
  The scalar product of the unit vectors of two points of the sphere, given by their
  latitudes and longitudes in radians.
\<close>

definition dot3 :: "real \<Rightarrow> real \<Rightarrow> real \<Rightarrow> real \<Rightarrow> real" where
  "dot3 p1 l1 p2 l2 = cos p1 * cos p2 * cos (l2 - l1) + sin p1 * sin p2"

text \<open>
  The nodes that can be reached from a node along connections, and whether a node with
  the id of the goal is among them (the search compares ids).
\<close>

inductive reachable :: "heap \<Rightarrow> nat \<Rightarrow> nat \<Rightarrow> bool" for h :: heap and a :: nat where
  here: "reachable h a a"
| step: "reachable h a b \<Longrightarrow> c \<in> set (connections (h b)) \<Longrightarrow> reachable h a (node c)"

definition goalReachable :: "heap \<Rightarrow> nat \<Rightarrow> nat \<Rightarrow> bool" where
  "goalReachable h startNode endNode = (\<exists>r. reachable h startNode r \<and> nid (h r) = nid (h endNode))"


text \<open>
  Sample inputs. \<open>turnGraph\<close>: three nodes, the second due south of the first (a
  bearing of 180 degrees), the third at a bearing of -150 degrees from the second.
  \<open>noService\<close>: a routing service that finds nothing.
\<close>

definition turnGraph :: "GraphNode list" where
  "turnGraph = [newGraphNode 0 1 0, newGraphNode 1 0 0, newGraphNode 2 (- 60) (- 90)]"


definition noService :: RoutingService where
  "noService = \<lparr>service_findNearestService = (\<lambda>l t n. []),
                service_calculateOptimalRoute = (\<lambda>a b c d. Failure ''No valid route found'')\<rparr>"


text \<open>
  \<open>sampleGraph\<close>: three nodes on the equator, one degree apart; the first two are
  connected to each other and the third has no connection. \<open>defaultOptions\<close> are the
  defaults of the preferences.
\<close>

definition sampleGraph :: "GraphNode list" where
  "sampleGraph =
     [(newGraphNode 0 0 0)\<lparr>connections :=
         [\<lparr>node = 1, distance = haversineDistance 0 0 0 1, trafficLevel = 0.25, accidentRisk = 0.1\<rparr>]\<rparr>,
      (newGraphNode 1 0 1)\<lparr>connections :=
         [\<lparr>node = 0, distance = haversineDistance 0 1 0 0, trafficLevel = 0.25, accidentRisk = 0.1\<rparr>]\<rparr>,
      newGraphNode 2 0 2]"

definition defaultOptions :: Options where
  "defaultOptions =
     \<lparr>prioritizeSafety = True, avoidTraffic = True, maxDistance = None, emergencyType = ''general''\<rparr>"

definition trivialMetadata :: Metadata where
  "trivialMetadata =
     \<lparr>totalDistanceKm = 0, estimatedTimeMin = 0, waypoints = 1, avgTrafficLevel = 0,
      maxAccidentRisk = 0, safetyScore = 100, shortestPath = True, lowTraffic = True,
      safePassage = True, minimalTime = True\<rparr>"

text \<open>
  The centre of an edge as \<open>enrichWithAccidentData\<close> computes it, as a \<open>[lng, lat]\<close>
  pair, and the risk that the enrichment leaves on the \<open>j\<close>-th connection of the
  \<open>i\<close>-th node.
\<close>

definition edgePoint :: "GraphNode list \<Rightarrow> GraphNode \<Rightarrow> Connection \<Rightarrow> real \<times> real" where
  "edgePoint graph n connection =
     ((lng n + lng (heap_of graph (node connection))) / 2,
      (lat n + lat (heap_of graph (node connection))) / 2)"

definition riskAt ::
  "(real \<times> real \<Rightarrow> real \<times> real \<Rightarrow> real) \<Rightarrow> Accident list \<Rightarrow> GraphNode list \<Rightarrow> nat \<Rightarrow> nat \<Rightarrow> real" where
  "riskAt turf_distance accidents graph i j =
     accidentRisk (connections (enrichWithAccidentData turf_distance (Some accidents) graph ! i) ! j)"

text \<open>
  The distance of the geometry library in metres: the haversine distance on a sphere of
  radius 6371008.8 metres, between \<open>[lng, lat]\<close> pairs.
\<close>

definition turfDistance :: "real \<times> real \<Rightarrow> real \<times> real \<Rightarrow> real" where
  "turfDistance p q =
     6371008.8 * (haversineDistance (snd p) (fst p) (snd q) (fst q) / 6371)"

text \<open>
  \<open>edgeGraph\<close>: two nodes 0.005 degrees apart on the equator, the first connected to the
  second with the baseline risk. \<open>incident s\<close> is an accident of severity \<open>s\<close> at the
  centre of that edge.
\<close>

definition edgeGraph :: "GraphNode list" where
  "edgeGraph =
     [(newGraphNode 0 0 0)\<lparr>connections :=
         [\<lparr>node = 1, distance = haversineDistance 0 0 0 0.005, trafficLevel = 0.25,
           accidentRisk = 0.1\<rparr>]\<rparr>,
      newGraphNode 1 0 0.005]"

definition incident :: "real \<Rightarrow> Accident" where
  "incident s = \<lparr>location = (0.0025, 0), severity = Some s\<rparr>"

text \<open>
  The number of iterations of a loop \<open>for (x = lo; x <= hi; x += gridSize)\<close> with a
  positive step, and the nodes that the two nested loops of the grid builder create:
  the node at position \<open>i\<close> lies in row \<open>i div W\<close> and column \<open>i mod W\<close>, for \<open>W\<close> columns.
\<close>

definition steps :: "real \<Rightarrow> real \<Rightarrow> real \<Rightarrow> nat" where
  "steps lo hi gridSize = (if lo \<le> hi then nat \<lfloor>(hi - lo) / gridSize\<rfloor> + 1 else 0)"

definition gridNode :: "Bounds \<Rightarrow> real \<Rightarrow> nat \<Rightarrow> GraphNode" where
  "gridNode bounds gridSize i =
     (let W = steps (minLng bounds) (maxLng bounds) gridSize in
      newGraphNode i (minLat bounds + real (i div W) * gridSize)
                     (minLng bounds + real (i mod W) * gridSize))"

definition gridNodes :: "Bounds \<Rightarrow> real \<Rightarrow> GraphNode list" where
  "gridNodes bounds gridSize =
     map (gridNode bounds gridSize)
       [0..<steps (minLng bounds) (maxLng bounds) gridSize *
            steps (minLat bounds) (maxLat bounds) gridSize]"

text \<open>
  \<open>noSelfEdge\<close>: every connection of a graph leads to a node of the graph other than
  its origin, with another id.
\<close>

definition noSelfEdge :: "GraphNode list \<Rightarrow> bool" where
  "noSelfEdge g =
     list_all (\<lambda>i. list_all (\<lambda>c. node c < length g \<and> node c \<noteq> i \<and>
                                 nid (g ! node c) \<noteq> nid (g ! i))
                      (connections (g ! i)))
       [0..<length g]"

text \<open>
  A sample rounding, to the nearest multiple of 1/2 (halves of it rounded up), and an
  edge on which the order of the multiplications shows under it.
\<close>

definition roundToHalves :: "real \<Rightarrow> real" where
  "roundToHalves x = of_int \<lfloor>2 * x + 1 / 2\<rfloor> / 2"

definition orderEdge :: Connection where
  "orderEdge = \<lparr>node = 1, distance = 3 / 2, trafficLevel = 1 / 4, accidentRisk = 1 / 2\<rparr>"

text \<open>
  Paths for the admissibility of the heuristic. \<open>edgeOk h s c\<close>: \<open>c\<close> is a connection of
  the node \<open>s\<close> as the grid builder and the enrichment leave it: its distance is the
  haversine distance between its two nodes, and its traffic level and accident risk lie
  between 0 and 1. \<open>validPath h s cs\<close>: the connections \<open>cs\<close> lead, one after the other,
  from \<open>s\<close> to \<open>pathEnd h s cs\<close>. \<open>pathCost\<close>: the sum of their weights.
\<close>

definition edgeOk :: "heap \<Rightarrow> nat \<Rightarrow> Connection \<Rightarrow> bool" where
  "edgeOk h s c =
     (c \<in> set (connections (h s)) \<and>
      distance c = haversineDistance (lat (h s)) (lng (h s)) (lat (h (node c))) (lng (h (node c))) \<and>
      0 \<le> trafficLevel c \<and> trafficLevel c \<le> 1 \<and> 0 \<le> accidentRisk c \<and> accidentRisk c \<le> 1)"

fun validPath :: "heap \<Rightarrow> nat \<Rightarrow> Connection list \<Rightarrow> bool" where
  "validPath h s [] = True"
| "validPath h s (c # cs) = (edgeOk h s c \<and> validPath h (node c) cs)"

fun pathEnd :: "heap \<Rightarrow> nat \<Rightarrow> Connection list \<Rightarrow> nat" where
  "pathEnd h s [] = s"
| "pathEnd h s (c # cs) = pathEnd h (node c) cs"

definition pathCost :: "Options \<Rightarrow> Connection list \<Rightarrow> real" where
  "pathCost options cs = sum_list (map (\<lambda>c. calculateEdgeWeight c options) cs)"

section \<open>Properties of the geodesy utilities\<close>

lemma toRadians_diff: "toRadians (a - b) = toRadians a - toRadians b"
  by (simp add: toRadians_def field_simps)

lemma toRadians_minus: "toRadians (- a) = - toRadians a"
  by (simp add: toRadians_def)

lemma sin_half_sq: "sin (x / 2) * sin (x / 2) = (1 - cos (x::real)) / 2"
  using cos_double_sin [of "x / 2"] by (simp add: power2_eq_square)

lemma haversine_a_dot:
  "haversine_a lat1 lng1 lat2 lng2 =
     (1 - dot3 (toRadians lat1) (toRadians lng1) (toRadians lat2) (toRadians lng2)) / 2"
proof -
  have "haversine_a lat1 lng1 lat2 lng2 =
      sin ((toRadians lat2 - toRadians lat1) / 2) * sin ((toRadians lat2 - toRadians lat1) / 2)
      + cos (toRadians lat1) * cos (toRadians lat2) *
        (sin ((toRadians lng2 - toRadians lng1) / 2) * sin ((toRadians lng2 - toRadians lng1) / 2))"
    by (simp add: haversine_a_def Let_def toRadians_diff algebra_simps)
  also have "\<dots> = (1 - cos (toRadians lat2 - toRadians lat1)) / 2
      + cos (toRadians lat1) * cos (toRadians lat2) * ((1 - cos (toRadians lng2 - toRadians lng1)) / 2)"
    by (simp only: sin_half_sq)
  also have "\<dots> = (1 - dot3 (toRadians lat1) (toRadians lng1) (toRadians lat2) (toRadians lng2)) / 2"
    by (simp add: dot3_def cos_diff field_simps)
  finally show ?thesis .
qed

lemma dot3_bounds: "- 1 \<le> dot3 p1 l1 p2 l2 \<and> dot3 p1 l1 p2 l2 \<le> 1"
proof -
  define c where "c = cos (l2 - l1)"
  have c: "- 1 \<le> c" "c \<le> 1" by (simp_all add: c_def)
  have "dot3 p1 l1 p2 l2 = cos p1 * cos p2 * c + sin p1 * sin p2"
    by (simp add: dot3_def c_def)
  then have e: "dot3 p1 l1 p2 l2 = (1 + c) / 2 * cos (p1 - p2) - (1 - c) / 2 * cos (p1 + p2)"
    by (simp add: cos_diff cos_add field_simps)
  have a: "- 1 \<le> cos (p1 - p2)" "cos (p1 - p2) \<le> 1" "- 1 \<le> cos (p1 + p2)" "cos (p1 + p2) \<le> 1"
    by simp_all
  have u: "(1 + c) / 2 * cos (p1 - p2) \<le> (1 + c) / 2 * 1"
    using c a by (intro mult_left_mono) auto
  have l: "(1 + c) / 2 * (- 1) \<le> (1 + c) / 2 * cos (p1 - p2)"
    using c a by (intro mult_left_mono) auto
  have u2: "(1 - c) / 2 * cos (p1 + p2) \<le> (1 - c) / 2 * 1"
    using c a by (intro mult_left_mono) auto
  have l2: "(1 - c) / 2 * (- 1) \<le> (1 - c) / 2 * cos (p1 + p2)"
    using c a by (intro mult_left_mono) auto
  show ?thesis using u l u2 l2 unfolding e by (simp add: field_simps)
qed

lemma haversine_a_range: "0 \<le> haversine_a lat1 lng1 lat2 lng2 \<and> haversine_a lat1 lng1 lat2 lng2 \<le> 1"
  using dot3_bounds [of "toRadians lat1" "toRadians lng1" "toRadians lat2" "toRadians lng2"]
  by (simp add: haversine_a_dot)

lemma haversine_a_sym: "haversine_a lat1 lng1 lat2 lng2 = haversine_a lat2 lng2 lat1 lng1"
proof -
  have "dot3 p1 l1 p2 l2 = dot3 p2 l2 p1 l1" for p1 l1 p2 l2
  proof -
    have "cos (l2 - l1) = cos (l1 - l2)" using cos_minus [of "l1 - l2"] by simp
    then show ?thesis by (simp add: dot3_def mult.commute)
  qed
  then show ?thesis by (simp add: haversine_a_dot)
qed

lemma haversine_a_same: "haversine_a la lo la lo = 0"
  by (simp add: haversine_a_def toRadians_def)

lemma Math_atan2_nonneg: "0 \<le> y \<Longrightarrow> 0 \<le> x \<Longrightarrow> 0 \<le> Math_atan2 y x"
  by (auto simp: Math_atan2_def zero_le_arctan_iff)

lemma haversineDistance_nonneg: "0 \<le> haversineDistance lat1 lng1 lat2 lng2"
  using haversine_a_range [of lat1 lng1 lat2 lng2]
  by (simp add: haversineDistance_def Let_def Math_atan2_nonneg)

lemma haversineDistance_sym: "haversineDistance lat1 lng1 lat2 lng2 = haversineDistance lat2 lng2 lat1 lng1"
  by (simp add: haversineDistance_def haversine_a_sym [of lat1 lng1 lat2 lng2])

lemma haversineDistance_same: "haversineDistance la lo la lo = 0"
  by (simp add: haversineDistance_def haversine_a_same Math_atan2_def)

text \<open>
  For two antipodal points the term \<open>a\<close> is exactly 1, the upper end of the domain of
  \<open>sqrt (1 - a)\<close>, and the distance is half the circumference.
\<close>

lemma haversine_a_antipodal: "haversine_a (- la) 0 la 180 = 1"
proof -
  have "toRadians (la - - la) / 2 = toRadians la" "toRadians (180 - 0) / 2 = pi / 2"
    "toRadians (- la) = - toRadians la"
    by (simp_all add: toRadians_def)
  then show ?thesis
    by (simp add: haversine_a_def Let_def power2_eq_square [symmetric])
qed

lemma haversineDistance_antipodal: "haversineDistance (- la) 0 la 180 = 6371 * pi"
  by (simp add: haversineDistance_def Let_def haversine_a_antipodal Math_atan2_def)

section \<open>Properties of the angle normalisation and of the edge weight\<close>

lemma normalize_down_id: "x \<le> 180 \<Longrightarrow> normalize_down x = x"
  by (subst normalize_down.simps) simp

lemma normalize_down_step: "180 < x \<Longrightarrow> normalize_down x = normalize_down (x - 360)"
  by (subst normalize_down.simps) simp

lemma normalize_up_id: "- 180 \<le> x \<Longrightarrow> normalize_up x = x"
  by (subst normalize_up.simps) simp

lemma normalize_up_step: "x < - 180 \<Longrightarrow> normalize_up x = normalize_up (x + 360)"
  by (subst normalize_up.simps) simp

lemma normalize_down_le: "normalize_down x \<le> 180"
proof (induction x rule: normalize_down.induct)
  case (1 angle)
  show ?case
  proof (cases "180 < angle")
    case True
    have "normalize_down (angle - 360) \<le> 180" using True by (rule "1.IH")
    then show ?thesis by (simp only: normalize_down_step [OF True])
  next
    case False
    then have "normalize_down angle = angle" by (intro normalize_down_id) simp
    then show ?thesis using False by linarith
  qed
qed

lemma normalize_down_gt: "180 < x \<Longrightarrow> - 180 < normalize_down x"
proof (induction x rule: normalize_down.induct)
  case (1 angle)
  have big: "180 < angle" by (rule "1.prems")
  have step: "normalize_down angle = normalize_down (angle - 360)"
    by (rule normalize_down_step [OF big])
  show ?case
  proof (cases "180 < angle - 360")
    case True
    have "- 180 < normalize_down (angle - 360)" using big True by (rule "1.IH")
    then show ?thesis by (simp only: step)
  next
    case False
    then have "normalize_down (angle - 360) = angle - 360" by (intro normalize_down_id) simp
    then show ?thesis using big step by linarith
  qed
qed

lemma normalize_down_shift: "\<exists>k::nat. normalize_down x = x - 360 * real k"
proof (induction x rule: normalize_down.induct)
  case (1 angle)
  show ?case
  proof (cases "180 < angle")
    case True
    from "1.IH" [OF True] obtain k :: nat
      where k: "normalize_down (angle - 360) = angle - 360 - 360 * real k" by blast
    have "normalize_down angle = angle - 360 - 360 * real k"
      using k by (simp only: normalize_down_step [OF True])
    then have "normalize_down angle = angle - 360 * real (Suc k)" by (simp add: algebra_simps)
    then show ?thesis by blast
  next
    case False
    then have "normalize_down angle = angle" by (intro normalize_down_id) simp
    then have "normalize_down angle = angle - 360 * real (0::nat)" by simp
    then show ?thesis by blast
  qed
qed

lemma normalize_up_ge: "- 180 \<le> normalize_up x"
proof (induction x rule: normalize_up.induct)
  case (1 angle)
  show ?case
  proof (cases "angle < - 180")
    case True
    have "- 180 \<le> normalize_up (angle + 360)" using True by (rule "1.IH")
    then show ?thesis by (simp only: normalize_up_step [OF True])
  next
    case False
    then have "normalize_up angle = angle" by (intro normalize_up_id) simp
    then show ?thesis using False by linarith
  qed
qed

lemma normalize_up_lt: "x < - 180 \<Longrightarrow> normalize_up x < 180"
proof (induction x rule: normalize_up.induct)
  case (1 angle)
  have small: "angle < - 180" by (rule "1.prems")
  have step: "normalize_up angle = normalize_up (angle + 360)"
    by (rule normalize_up_step [OF small])
  show ?case
  proof (cases "angle + 360 < - 180")
    case True
    have "normalize_up (angle + 360) < 180" using small True by (rule "1.IH")
    then show ?thesis by (simp only: step)
  next
    case False
    then have "normalize_up (angle + 360) = angle + 360" by (intro normalize_up_id) simp
    then show ?thesis using small step by linarith
  qed
qed

lemma normalize_up_shift: "\<exists>k::nat. normalize_up x = x + 360 * real k"
proof (induction x rule: normalize_up.induct)
  case (1 angle)
  show ?case
  proof (cases "angle < - 180")
    case True
    from "1.IH" [OF True] obtain k :: nat
      where k: "normalize_up (angle + 360) = angle + 360 + 360 * real k" by blast
    have "normalize_up angle = angle + 360 + 360 * real k"
      using k by (simp only: normalize_up_step [OF True])
    then have "normalize_up angle = angle + 360 * real (Suc k)" by (simp add: algebra_simps)
    then show ?thesis by blast
  next
    case False
    then have "normalize_up angle = angle" by (intro normalize_up_id) simp
    then have "normalize_up angle = angle + 360 * real (0::nat)" by simp
    then show ?thesis by blast
  qed
qed

lemma normalizeAngle_range: "- 180 \<le> normalizeAngle x \<and> normalizeAngle x \<le> 180"
proof -
  have "normalize_up (normalize_down x) \<le> 180"
  proof (cases "normalize_down x < - 180")
    case True
    then show ?thesis using normalize_up_lt [of "normalize_down x"] by simp
  next
    case False
    then show ?thesis using normalize_down_le [of x] by (simp add: normalize_up_id)
  qed
  then show ?thesis by (simp add: normalizeAngle_def normalize_up_ge)
qed

lemma normalizeAngle_shift: "\<exists>k::int. normalizeAngle x = x + 360 * of_int k"
proof -
  obtain a :: nat where a: "normalize_down x = x - 360 * real a"
    using normalize_down_shift by blast
  obtain b :: nat where b: "normalize_up (normalize_down x) = normalize_down x + 360 * real b"
    using normalize_up_shift by blast
  have "normalizeAngle x = x + 360 * of_int (int b - int a)"
    using a b by (simp add: normalizeAngle_def algebra_simps)
  then show ?thesis by blast
qed

lemma normalizeAngle_id: "- 180 \<le> x \<Longrightarrow> x \<le> 180 \<Longrightarrow> normalizeAngle x = x"
  by (simp add: normalizeAngle_def normalize_down_id normalize_up_id)

lemma calculateEdgeWeight_eq:
  "calculateEdgeWeight connection options =
     ((distance connection
        * (if avoidTraffic options then 1 + trafficLevel connection * 2 else 1))
        * (if prioritizeSafety options then 1 + accidentRisk connection * 3 else 1))
        * (if emergencyType options = ''fire'' then 1 + accidentRisk connection else 1)"
  by (simp add: calculateEdgeWeight_def Let_def)

lemma calculateEdgeWeight_ge:
  assumes "0 \<le> distance c" "0 \<le> trafficLevel c" "0 \<le> accidentRisk c"
  shows "distance c \<le> calculateEdgeWeight c options"
proof -
  let ?m1 = "if avoidTraffic options then 1 + trafficLevel c * 2 else 1"
  let ?m2 = "if prioritizeSafety options then 1 + accidentRisk c * 3 else 1"
  let ?m3 = "if emergencyType options = ''fire'' then 1 + accidentRisk c else 1"
  have m: "1 \<le> ?m1" "1 \<le> ?m2" "1 \<le> ?m3" using assms by simp_all
  have "distance c * 1 \<le> distance c * ?m1" using assms(1) m(1) by (rule mult_left_mono [rotated])
  moreover have "distance c * ?m1 * 1 \<le> distance c * ?m1 * ?m2"
    using assms(1) m by (intro mult_left_mono mult_nonneg_nonneg) auto
  moreover have "distance c * ?m1 * ?m2 * 1 \<le> distance c * ?m1 * ?m2 * ?m3"
    using assms(1) m by (intro mult_left_mono mult_nonneg_nonneg) auto
  ultimately have "distance c \<le> distance c * ?m1 * ?m2 * ?m3" by simp
  then show ?thesis by (simp only: calculateEdgeWeight_eq)
qed

lemma calculateEdgeWeight_rounded_exact:
  "calculateEdgeWeight_rounded (\<lambda>x. x) connection options = calculateEdgeWeight connection options"
  by (simp add: calculateEdgeWeight_rounded_def calculateEdgeWeight_def Let_def)

text \<open>
  Under a rounding the order of the multiplications shows: on \<open>orderEdge\<close>, with numbers
  rounded to halves, the order of the source gives 6.5 and the multiplication by the
  safety factor before the traffic factor gives 6.
\<close>

lemma order_shows:
  "calculateEdgeWeight_rounded roundToHalves orderEdge defaultOptions = 13 / 2 \<and>
   foldl (\<lambda>weight m. roundToHalves (weight * m)) (distance orderEdge)
     [roundToHalves (1 + roundToHalves (accidentRisk orderEdge * 3)),
      roundToHalves (1 + roundToHalves (trafficLevel orderEdge * 2))] = 6"
  by (simp add: calculateEdgeWeight_rounded_def Let_def roundToHalves_def orderEdge_def
      defaultOptions_def)

section \<open>Properties of the pathfinder and of the route computation\<close>

lemma enqueue_empty: "enqueue [] item priority = [(item, priority)]"
  by (simp add: enqueue_def)

lemma relax_Infinity:
  "orInfinity (gScore s (nid (h current))) = Infinity \<Longrightarrow>
   relax h options endNode current cs s = s"
  by (induction cs) (simp_all add: Let_def)

lemma reconstructPath_empty:
  "reconstructPath h Map.empty current = Some \<lparr>nodes = [current], conns = []\<rparr>"
  by (simp add: reconstructPath_def reconstruct_loop.simps)

lemma aStarPathfinding_same:
  assumes "nid (h startNode) = nid (h endNode)"
  shows "aStarPathfinding h startNode endNode options = Some (Some \<lparr>nodes = [startNode], conns = []\<rparr>)"
  using assms
  by (simp add: aStarPathfinding_def Let_def enqueue_empty astar_loop.simps reconstructPath_empty)

text \<open>
  The score of the start node is 0, which is falsy: \<open>gScore.get(current.id) || Infinity\<close>
  is \<open>Infinity\<close> at the start node, so is the tentative score of each of its
  neighbours, and none of them is relaxed. The open set is empty after the first round,
  and the search returns no path whenever the goal has another id than the start.
\<close>

lemma aStarPathfinding_other:
  assumes "nid (h startNode) \<noteq> nid (h endNode)"
  shows "aStarPathfinding h startNode endNode options = Some None"
proof -
  let ?f0 = "heuristic (h startNode) (h endNode)"
  let ?s1 = "\<lparr>openSet = [], closedSet = insert (nid (h startNode)) {},
              cameFrom = Map.empty, gScore = [nid (h startNode) \<mapsto> 0],
              fScore = [nid (h startNode) \<mapsto> ?f0]\<rparr>"
  have r: "relax h options endNode startNode (connections (h startNode)) ?s1 = ?s1"
    by (rule relax_Infinity) simp
  have "aStarPathfinding h startNode endNode options = astar_loop h options endNode ?s1"
    using assms r
    by (simp add: aStarPathfinding_def Let_def enqueue_empty astar_loop.simps [where s = "\<lparr>openSet = [(startNode, ?f0)], closedSet = {}, cameFrom = Map.empty, gScore = [nid (h startNode) \<mapsto> 0], fScore = [nid (h startNode) \<mapsto> ?f0]\<rparr>"])
  also have "\<dots> = Some None"
    by (simp add: astar_loop.simps [where s = ?s1])
  finally show ?thesis .
qed

lemma generateInstructions_single: "generateInstructions h \<lparr>nodes = [n], conns = cs\<rparr> = []"
  by (simp add: generateInstructions_def)

lemma Math_round_0: "Math_round 0 = 0" "Math_round 100 = 100"
  by (simp_all add: Math_round_def)

lemma calculateRouteMetadata_single:
  "calculateRouteMetadata \<lparr>nodes = [n], conns = []\<rparr> =
     trivialMetadata"
  by (simp add: calculateRouteMetadata_def Let_def Math_round_0 trivialMetadata_def)

lemma calculateOptimalRoute_same:
  assumes "findNearestNode graph start = Some s" "findNearestNode graph end' = Some s"
  shows "calculateOptimalRoute graph start end' preferences =
     Some (Success [(lng (heap_of graph s), lat (heap_of graph s))] []
       trivialMetadata)"
  using assms
  by (simp add: calculateOptimalRoute_def aStarPathfinding_same convertToGeoJSON_def
      generateInstructions_single calculateRouteMetadata_single)

lemma unreachable_ids: "\<not> goalReachable h s e \<Longrightarrow> nid (h s) \<noteq> nid (h e)"
  using reachable.here [of h s] by (auto simp: goalReachable_def)

lemma calculateOptimalRoute_unreachable:
  assumes "findNearestNode graph start = Some s" "findNearestNode graph end' = Some e"
    and "\<not> goalReachable (heap_of graph) s e"
  shows "aStarPathfinding (heap_of graph) s e preferences = Some None \<and>
         calculateOptimalRoute graph start end' preferences = Some (Failure ''No valid route found'')"
  using assms unreachable_ids [OF assms(3)]
  by (simp add: calculateOptimalRoute_def aStarPathfinding_other)

lemma Math_atan2_pos: "0 < y \<Longrightarrow> 0 \<le> x \<Longrightarrow> 0 < Math_atan2 y x"
  by (auto simp: Math_atan2_def zero_less_arctan_iff)

lemma haversineDistance_pos_iff:
  "0 < haversineDistance lat1 lng1 lat2 lng2 \<longleftrightarrow> 0 < haversine_a lat1 lng1 lat2 lng2"
proof
  assume "0 < haversine_a lat1 lng1 lat2 lng2"
  then have "0 < Math_atan2 (sqrt (haversine_a lat1 lng1 lat2 lng2)) (sqrt (1 - haversine_a lat1 lng1 lat2 lng2))"
    using haversine_a_range [of lat1 lng1 lat2 lng2] by (intro Math_atan2_pos) auto
  then show "0 < haversineDistance lat1 lng1 lat2 lng2"
    by (simp add: haversineDistance_def Let_def)
next
  assume p: "0 < haversineDistance lat1 lng1 lat2 lng2"
  show "0 < haversine_a lat1 lng1 lat2 lng2"
  proof (rule ccontr)
    assume "\<not> 0 < haversine_a lat1 lng1 lat2 lng2"
    then have "haversine_a lat1 lng1 lat2 lng2 = 0"
      using haversine_a_range [of lat1 lng1 lat2 lng2] by linarith
    then have "haversineDistance lat1 lng1 lat2 lng2 = 0"
      by (simp add: haversineDistance_def Math_atan2_def)
    with p show False by simp
  qed
qed

text \<open>The search and the route computation always return.\<close>

lemma aStarPathfinding_returns: "\<exists>r. aStarPathfinding h startNode endNode options = Some r"
  using aStarPathfinding_same [of h startNode endNode options]
    aStarPathfinding_other [of h startNode endNode options]
  by (cases "nid (h startNode) = nid (h endNode)") simp_all

lemma calculateOptimalRoute_returns:
  "\<exists>r. calculateOptimalRoute graph start end' preferences = Some r"
proof (cases "findNearestNode graph start")
  case None
  then show ?thesis by (simp add: calculateOptimalRoute_def)
next
  case (Some s)
  show ?thesis
  proof (cases "findNearestNode graph end'")
    case None
    then show ?thesis using Some by (simp add: calculateOptimalRoute_def)
  next
    case (Some e)
    obtain r where "aStarPathfinding (heap_of graph) s e preferences = Some r"
      using aStarPathfinding_returns by blast
    then show ?thesis
      using Some \<open>findNearestNode graph start = Some s\<close>
      by (cases r) (simp_all add: calculateOptimalRoute_def)
  qed
qed

section \<open>Distances between distinct points, bearings and instructions\<close>

lemma toRadians_0: "toRadians 0 = 0" by (simp add: toRadians_def)

lemma sin_pos_of_bounds: "0 < x \<Longrightarrow> x < pi \<Longrightarrow> sin x \<noteq> 0" for x :: real
  using sin_gt_zero [of x] by simp

lemma sin_ne_0: assumes "x \<noteq> 0" "\<bar>x\<bar> < pi" shows "sin x \<noteq> (0::real)"
proof (cases "0 < x")
  case True
  then show ?thesis using assms sin_gt_zero [of x] by simp
next
  case False
  then have "0 < - x" "- x < pi" using assms by simp_all
  then have "0 < sin (- x)" by (rule sin_gt_zero)
  then show ?thesis by simp
qed

lemma toRadians_abs_less: "\<bar>x\<bar> < b \<Longrightarrow> \<bar>toRadians x\<bar> < toRadians b"
proof -
  assume a: "\<bar>x\<bar> < b"
  have "\<bar>toRadians x\<bar> = \<bar>x\<bar> * (pi / 180)" by (simp add: toRadians_def abs_mult)
  also have "\<dots> < b * (pi / 180)" using a by (intro mult_strict_right_mono) simp_all
  finally show ?thesis by (simp add: toRadians_def)
qed

lemma toRadians_values: "toRadians 90 = pi / 2" "toRadians 180 = pi" "toRadians 360 = 2 * pi"
  by (simp_all add: toRadians_def)

lemma haversine_a_pos:
  assumes "\<bar>lat1\<bar> < 90" "\<bar>lat2\<bar> < 90" "\<bar>lng2 - lng1\<bar> < 360"
    and "lat1 \<noteq> lat2 \<or> lng1 \<noteq> lng2"
  shows "0 < haversine_a lat1 lng1 lat2 lng2"
proof -
  let ?u = "toRadians (lat2 - lat1) / 2" and ?v = "toRadians (lng2 - lng1) / 2"
  have c1: "0 < cos (toRadians lat1)"
    using toRadians_abs_less [OF assms(1)]
    by (intro cos_gt_zero_pi) (simp_all add: toRadians_values abs_less_iff)
  have c2: "0 < cos (toRadians lat2)"
    using toRadians_abs_less [OF assms(2)]
    by (intro cos_gt_zero_pi) (simp_all add: toRadians_values abs_less_iff)
  have e: "haversine_a lat1 lng1 lat2 lng2 =
      (sin ?u)\<^sup>2 + cos (toRadians lat1) * cos (toRadians lat2) * (sin ?v)\<^sup>2"
    by (simp add: haversine_a_def Let_def power2_eq_square)
  have t2: "0 \<le> cos (toRadians lat1) * cos (toRadians lat2) * (sin ?v)\<^sup>2"
    using c1 c2 by simp
  show ?thesis
  proof (cases "lat1 = lat2")
    case False
    have "\<bar>lat2 - lat1\<bar> < 180" using assms(1,2) by linarith
    then have "\<bar>toRadians (lat2 - lat1)\<bar> < pi"
      using toRadians_abs_less [of "lat2 - lat1" 180] by (simp add: toRadians_values)
    then have "\<bar>?u\<bar> < pi" by (simp add: abs_less_iff)
    moreover have "?u \<noteq> 0" using False by (simp add: toRadians_def)
    ultimately have "sin ?u \<noteq> 0" by (intro sin_ne_0)
    then have "0 < (sin ?u)\<^sup>2" by simp
    then show ?thesis using t2 unfolding e by linarith
  next
    case True
    then have ne: "lng1 \<noteq> lng2" using assms(4) by simp
    have "\<bar>toRadians (lng2 - lng1)\<bar> < 2 * pi"
      using toRadians_abs_less [OF assms(3)] by (simp add: toRadians_values)
    then have "\<bar>?v\<bar> < pi" by (simp add: abs_less_iff)
    moreover have "?v \<noteq> 0" using ne by (simp add: toRadians_def)
    ultimately have "sin ?v \<noteq> 0" by (intro sin_ne_0)
    then have "0 < (sin ?v)\<^sup>2" by simp
    then have "0 < cos (toRadians lat1) * cos (toRadians lat2) * (sin ?v)\<^sup>2"
      using c1 c2 by simp
    moreover have "0 \<le> (sin ?u)\<^sup>2" by simp
    ultimately show ?thesis unfolding e by linarith
  qed
qed

lemma haversineDistance_pos:
  assumes "\<bar>lat1\<bar> < 90" "\<bar>lat2\<bar> < 90" "\<bar>lng2 - lng1\<bar> < 360"
    and "lat1 \<noteq> lat2 \<or> lng1 \<noteq> lng2"
  shows "0 < haversineDistance lat1 lng1 lat2 lng2"
  using haversine_a_pos [OF assms] by (simp add: haversineDistance_pos_iff)

lemma arctan_inv_sqrt3: "arctan (1 / sqrt 3) = pi / 6"
proof (rule arctan_unique)
  show "- (pi / 2) < pi / 6" using pi_gt_zero by linarith
  show "pi / 6 < pi / 2" using pi_gt_zero by linarith
  show "tan (pi / 6) = 1 / sqrt 3" by (rule tan_30)
qed

lemma bearing_south: "calculateBearing 1 0 0 0 = 180"
proof -
  have "0 < sin (pi / 180)" by (intro sin_gt_zero) (simp_all add: field_simps)
  then show ?thesis
    by (simp add: calculateBearing_def Let_def toRadians_def Math_atan2_def toDegrees_def)
qed

lemma bearing_minus_150: "calculateBearing 0 0 (- 60) (- 90) = - 150"
proof -
  have r: "toRadians (- 90) = - (pi / 2)" "toRadians (- 60) = - (pi / 3)" "toRadians 0 = 0"
    by (simp_all add: toRadians_def)
  have q: "- (1 / 2) / - (sqrt 3 / 2) = 1 / sqrt 3" by simp
  have m: "Math_atan2 (- (1 / 2)) (- (sqrt 3 / 2)) = - (5 * pi / 6)"
    unfolding Math_atan2_def q arctan_inv_sqrt3 by simp
  show ?thesis
    by (simp add: calculateBearing_def Let_def r cos_60 sin_60 m toDegrees_def)
qed

lemma turnAngle_30: "turnAngleAt (heap_of turnGraph) [0, 1, 2] 1 = 30"
proof -
  have "normalizeAngle (- 330) = normalize_up (- 330)"
    by (simp add: normalizeAngle_def normalize_down_id)
  also have "\<dots> = normalize_up (- 330 + 360)" by (rule normalize_up_step) simp
  also have "\<dots> = 30" by (simp add: normalize_up_id)
  finally have n: "normalizeAngle (- 330) = 30" .
  show ?thesis
    by (simp add: turnAngleAt_def Let_def heap_of_def turnGraph_def newGraphNode_def
        bearing_south bearing_minus_150 n)
qed

lemma generateInstructions_nth:
  assumes "1 \<le> i" "i + 1 < length (nodes r)"
  shows "generateInstructions h r ! i = intermediateInstruction h r i"
proof -
  let ?n = "length (nodes r)"
  have "generateInstructions h r ! i =
      (map (intermediateInstruction h r) [1..<?n - 1]) ! (i - 1)"
    using assms by (simp add: generateInstructions_def Let_def nth_append nth_Cons')
  also have "\<dots> = intermediateInstruction h r ([1..<?n - 1] ! (i - 1))"
    using assms by (intro nth_map) simp
  also have "[1..<?n - 1] ! (i - 1) = i" using assms by simp
  finally show ?thesis .
qed

lemma turnAction_cases:
  "(fst (turnAction t) = ''straight'' \<longleftrightarrow> \<bar>t\<bar> \<le> 30) \<and>
   (fst (turnAction t) = ''turn_right'' \<longleftrightarrow> 30 < t \<and> t < 150) \<and>
   (fst (turnAction t) = ''turn_left'' \<longleftrightarrow> - 150 < t \<and> t < - 30) \<and>
   (fst (turnAction t) = ''u_turn'' \<longleftrightarrow> 150 \<le> \<bar>t\<bar>)"
  by (auto simp: turnAction_def)

section \<open>Properties of the risk enrichment\<close>

lemma nearbyLoop_eq:
  "nearbyLoop td p as (n, t) =
     (n + length (filter (\<lambda>a. td p (location a) < 200) as),
      t + sum_list (map severityOr5 (filter (\<lambda>a. td p (location a) < 200) as)))"
  by (induction as arbitrary: n t) simp_all

lemma enrichConnection_risk:
  "accidentRisk (enrichConnection td g as n c) =
     (if filter (\<lambda>a. td (edgePoint g n c) (location a) < 200) as = [] then accidentRisk c
      else min 1 (sum_list (map severityOr5 (filter (\<lambda>a. td (edgePoint g n c) (location a) < 200) as)) / 50))"
  by (simp add: enrichConnection_def Let_def nearbyLoop_eq edgePoint_def)

lemma riskAt_eq:
  assumes "i < length g" "j < length (connections (g ! i))"
  shows "riskAt td as g i j =
     accidentRisk (enrichConnection td g as (g ! i) (connections (g ! i) ! j))"
  using assms by (simp add: riskAt_def enrichWithAccidentData_def)

lemma filter_insert_near:
  "P a \<Longrightarrow> filter P (xs @ a # ys) = filter P xs @ a # filter P ys"
  by simp

lemma risk_add:
  assumes "i < length g" "j < length (connections (g ! i))"
    and near: "td (edgePoint g (g ! i) (connections (g ! i) ! j)) (location a) < 200"
    and sev: "0 \<le> severityOr5 a"
    and some: "\<exists>b\<in>set (xs @ ys). td (edgePoint g (g ! i) (connections (g ! i) ! j)) (location b) < 200"
  shows "riskAt td (xs @ ys) g i j \<le> riskAt td (xs @ a # ys) g i j"
proof -
  let ?P = "\<lambda>a. td (edgePoint g (g ! i) (connections (g ! i) ! j)) (location a) < 200"
  have ne: "filter ?P (xs @ ys) \<noteq> []" using some by (auto simp: filter_empty_conv)
  have s: "sum_list (map severityOr5 (filter ?P (xs @ a # ys))) =
      sum_list (map severityOr5 (filter ?P (xs @ ys))) + severityOr5 a"
    using near by simp
  have "sum_list (map severityOr5 (filter ?P (xs @ ys))) / 50
      \<le> sum_list (map severityOr5 (filter ?P (xs @ a # ys))) / 50"
    unfolding s using sev by simp
  then have "min 1 (sum_list (map severityOr5 (filter ?P (xs @ ys))) / 50)
      \<le> min 1 (sum_list (map severityOr5 (filter ?P (xs @ a # ys))) / 50)"
    by (rule min.mono [OF order_refl])
  moreover have "filter ?P (xs @ a # ys) \<noteq> []" using near by simp
  ultimately show ?thesis
    using ne by (simp only: riskAt_eq [OF assms(1,2)] enrichConnection_risk if_False)
qed

lemma risk_raise:
  assumes "i < length g" "j < length (connections (g ! i))"
    and near: "td (edgePoint g (g ! i) (connections (g ! i) ! j)) (location a) < 200"
    and loc: "location a' = location a"
    and sev: "severityOr5 a \<le> severityOr5 a'"
  shows "riskAt td (xs @ a # ys) g i j \<le> riskAt td (xs @ a' # ys) g i j"
proof -
  let ?P = "\<lambda>a. td (edgePoint g (g ! i) (connections (g ! i) ! j)) (location a) < 200"
  have near': "?P a'" using near loc by simp
  have "sum_list (map severityOr5 (filter ?P (xs @ a # ys))) / 50
      \<le> sum_list (map severityOr5 (filter ?P (xs @ a' # ys))) / 50"
    using near near' sev by simp
  then have "min 1 (sum_list (map severityOr5 (filter ?P (xs @ a # ys))) / 50)
      \<le> min 1 (sum_list (map severityOr5 (filter ?P (xs @ a' # ys))) / 50)"
    by (rule min.mono [OF order_refl])
  moreover have "filter ?P (xs @ a # ys) \<noteq> []" "filter ?P (xs @ a' # ys) \<noteq> []"
    using near near' by simp_all
  ultimately show ?thesis
    by (simp only: riskAt_eq [OF assms(1,2)] enrichConnection_risk if_False)
qed

lemma risk_first:
  assumes "i < length g" "j < length (connections (g ! i))"
    and near: "td (edgePoint g (g ! i) (connections (g ! i) ! j)) (location a) < 200"
    and none: "\<not> (\<exists>b\<in>set (xs @ ys). td (edgePoint g (g ! i) (connections (g ! i) ! j)) (location b) < 200)"
  shows "riskAt td (xs @ ys) g i j = accidentRisk (connections (g ! i) ! j) \<and>
         riskAt td (xs @ a # ys) g i j = min 1 (severityOr5 a / 50)"
proof -
  let ?P = "\<lambda>a. td (edgePoint g (g ! i) (connections (g ! i) ! j)) (location a) < 200"
  have e: "filter ?P (xs @ ys) = []" using none by (auto simp: filter_empty_conv)
  then have e2: "filter ?P xs = []" "filter ?P ys = []" by simp_all
  have f: "filter ?P (xs @ a # ys) = [a]" using near e2 by simp
  show ?thesis
    by (simp add: riskAt_eq [OF assms(1,2)] enrichConnection_risk e f del: filter_append filter.simps)
qed

lemma severityOr5_Some: "s \<noteq> 0 \<Longrightarrow> severity a = Some s \<Longrightarrow> severityOr5 a = s"
  by (simp add: severityOr5_def)

lemma edge_centre: "edgePoint edgeGraph (edgeGraph ! 0) (connections (edgeGraph ! 0) ! 0) = (0.0025, 0)"
  by (simp add: edgePoint_def edgeGraph_def heap_of_def newGraphNode_def)

lemma incident_near: "turfDistance (0.0025, 0) (location (incident s)) < 200"
  by (simp add: turfDistance_def incident_def haversineDistance_same)

lemma edgeGraph_risk:
  "riskAt turfDistance [] edgeGraph 0 0 = 1 / 10"
  "s \<noteq> 0 \<Longrightarrow> riskAt turfDistance [incident s] edgeGraph 0 0 = min 1 (s / 50)"
proof -
  have l: "0 < length edgeGraph" "0 < length (connections (edgeGraph ! 0))"
    by (simp_all add: edgeGraph_def newGraphNode_def)
  show "riskAt turfDistance [] edgeGraph 0 0 = 1 / 10"
    by (simp add: riskAt_eq [OF l] enrichConnection_risk) (simp add: edgeGraph_def newGraphNode_def)
  assume "s \<noteq> 0"
  then show "riskAt turfDistance [incident s] edgeGraph 0 0 = min 1 (s / 50)"
    using incident_near [of s]
    by (simp add: riskAt_eq [OF l] enrichConnection_risk edge_centre)
       (simp add: severityOr5_def incident_def)
qed

section \<open>Properties of the grid graph builder\<close>

lemma steps_0: "steps lo hi gs = 0 \<longleftrightarrow> hi < lo"
  by (simp add: steps_def not_le)

lemma steps_Suc:
  assumes "0 < gs" "lo \<le> hi"
  shows "steps lo hi gs = Suc (steps (lo + gs) hi gs)"
proof (cases "lo + gs \<le> hi")
  case True
  have e: "(hi - (lo + gs)) / gs = (hi - lo) / gs - 1" using assms(1) by (simp add: field_simps)
  have "0 \<le> (hi - (lo + gs)) / gs" using True assms(1) by simp
  then have f: "0 \<le> \<lfloor>(hi - (lo + gs)) / gs\<rfloor>" by simp
  have "\<lfloor>(hi - lo) / gs\<rfloor> = \<lfloor>(hi - (lo + gs)) / gs\<rfloor> + 1" unfolding e by simp
  moreover have "nat (z + 1) = Suc (nat z)" if "0 \<le> z" for z :: int
    using that by (simp add: nat_add_distrib)
  ultimately have "nat \<lfloor>(hi - lo) / gs\<rfloor> = Suc (nat \<lfloor>(hi - (lo + gs)) / gs\<rfloor>)"
    using f by metis
  then show ?thesis using True assms(2) by (simp add: steps_def)
next
  case False
  then have "(hi - lo) / gs < 1" using assms(1) by (simp add: field_simps)
  moreover have "0 \<le> (hi - lo) / gs" using assms by simp
  ultimately have "\<lfloor>(hi - lo) / gs\<rfloor> = 0" by (simp add: floor_eq_iff)
  then show ?thesis using False assms(2) by (simp add: steps_def)
qed

lemma grid_lng_loop_eq:
  assumes "0 < gs"
  shows "grid_lng_loop la lo hi gs ns =
     Some (ns @ map (\<lambda>k. newGraphNode (length ns + k) la (lo + real k * gs)) [0..<steps lo hi gs])"
proof (induction "steps lo hi gs" arbitrary: lo ns)
  case 0
  then have "hi < lo" by (simp add: steps_0)
  then show ?case using 0 by (subst grid_lng_loop.simps) simp
next
  case (Suc m)
  have le: "lo \<le> hi" using Suc.hyps(2) by (simp add: steps_def split: if_splits)
  have m: "m = steps (lo + gs) hi gs" using steps_Suc [OF assms le] Suc.hyps(2) by simp
  let ?n = "newGraphNode (length ns) la lo"
  have "grid_lng_loop la lo hi gs ns = grid_lng_loop la (lo + gs) hi gs (ns @ [?n])"
    using le by (subst grid_lng_loop.simps) simp
  also have "\<dots> = Some ((ns @ [?n]) @
      map (\<lambda>k. newGraphNode (length (ns @ [?n]) + k) la (lo + gs + real k * gs)) [0..<m])"
    using Suc.hyps(1) [OF m] m by simp
  also have "(ns @ [?n]) @
      map (\<lambda>k. newGraphNode (length (ns @ [?n]) + k) la (lo + gs + real k * gs)) [0..<m]
    = ns @ map (\<lambda>k. newGraphNode (length ns + k) la (lo + real k * gs)) [0..<Suc m]"
    by (simp add: map_upt_Suc algebra_simps del: upt_Suc)
  finally show ?case using Suc.hyps(2) by simp
qed

lemma grid_lat_loop_eq:
  assumes "0 < gs"
  shows "grid_lat_loop b gs la ns =
     Some (ns @ map (\<lambda>i. newGraphNode (length ns + i)
                          (la + real (i div steps (minLng b) (maxLng b) gs) * gs)
                          (minLng b + real (i mod steps (minLng b) (maxLng b) gs) * gs))
                 [0..<steps (minLng b) (maxLng b) gs * steps la (maxLat b) gs])"
proof (induction "steps la (maxLat b) gs" arbitrary: la ns)
  case 0
  then have "maxLat b < la" by (simp add: steps_0)
  then show ?case using 0 by (subst grid_lat_loop.simps) simp
next
  case (Suc h)
  let ?W = "steps (minLng b) (maxLng b) gs"
  have le: "la \<le> maxLat b" using Suc.hyps(2) by (simp add: steps_def split: if_splits)
  have h: "h = steps (la + gs) (maxLat b) gs" using steps_Suc [OF assms le] Suc.hyps(2) by simp
  let ?row = "map (\<lambda>k. newGraphNode (length ns + k) la (minLng b + real k * gs)) [0..<?W]"
  let ?F = "\<lambda>i. newGraphNode (length ns + i) (la + real (i div ?W) * gs)
                   (minLng b + real (i mod ?W) * gs)"
  let ?G = "\<lambda>i. newGraphNode (length (ns @ ?row) + i) (la + gs + real (i div ?W) * gs)
                   (minLng b + real (i mod ?W) * gs)"
  have "grid_lat_loop b gs la ns = grid_lat_loop b gs (la + gs) (ns @ ?row)"
    using le by (subst grid_lat_loop.simps) (simp add: grid_lng_loop_eq [OF assms])
  also have "\<dots> = Some ((ns @ ?row) @ map ?G [0..<?W * h])"
    using Suc.hyps(1) [OF h] h by simp
  also have "(ns @ ?row) @ map ?G [0..<?W * h] = ns @ map ?F [0..<?W * Suc h]"
  proof -
    have "?row @ map ?G [0..<?W * h] = map ?F [0..<?W * Suc h]"
    proof (rule nth_equalityI)
      show "length (?row @ map ?G [0..<?W * h]) = length (map ?F [0..<?W * Suc h])" by simp
    next
      fix i assume "i < length (?row @ map ?G [0..<?W * h])"
      then have i: "i < ?W + ?W * h" by simp
      show "(?row @ map ?G [0..<?W * h]) ! i = map ?F [0..<?W * Suc h] ! i"
      proof (cases "i < ?W")
        case True
        then show ?thesis using i by (simp add: nth_append)
      next
        case False
        then have W: "0 < ?W" "?W \<le> i" using i by (cases "?W = 0"; simp)+
        have d: "i div ?W = Suc ((i - ?W) div ?W)" using W by (simp add: le_div_geq)
        have m: "i mod ?W = (i - ?W) mod ?W" using W by (simp add: le_mod_geq)
        have "(?row @ map ?G [0..<?W * h]) ! i = ?G (i - ?W)"
          using False i by (simp add: nth_append)
        also have "\<dots> = ?F i" using W by (simp add: d m algebra_simps)
        also have "\<dots> = map ?F [0..<?W * Suc h] ! i" using i by simp
        finally show ?thesis .
      qed
    qed
    then show ?thesis by simp
  qed
  finally show ?case using Suc.hyps(2) by simp
qed

lemma grid_nodes_eq:
  assumes "0 < gs"
  shows "grid_lat_loop b gs (minLat b) [] = Some (gridNodes b gs)"
  by (simp add: grid_lat_loop_eq [OF assms] gridNodes_def gridNode_def Let_def)

lemma generateGridGraph_eq:
  assumes "0 < gs"
  shows "generateGridGraph rnd b gs =
     Some (map (\<lambda>i. (gridNodes b gs ! i)\<lparr>connections := connect rnd (gridNodes b gs) gs i\<rparr>)
             [0..<length (gridNodes b gs)])"
  by (simp add: generateGridGraph_def grid_nodes_eq [OF assms])

lemma gridNodes_nth:
  assumes "i < length (gridNodes b gs)"
  shows "gridNodes b gs ! i = gridNode b gs i"
  using assms by (simp add: gridNodes_def)

lemma gridNode_fields:
  "nid (gridNode b gs i) = i"
  "lat (gridNode b gs i) = minLat b + real (i div steps (minLng b) (maxLng b) gs) * gs"
  "lng (gridNode b gs i) = minLng b + real (i mod steps (minLng b) (maxLng b) gs) * gs"
  by (simp_all add: gridNode_def newGraphNode_def Let_def)

lemma connect_edges:
  assumes "c \<in> set (connect rnd ns gs i)"
  shows "node c < length ns \<and> nid (ns ! node c) \<noteq> nid (ns ! i) \<and>
         distance c = haversineDistance (lat (ns ! i)) (lng (ns ! i)) (lat (ns ! node c)) (lng (ns ! node c))"
proof -
  let ?nb = "findNeighbors (ns ! i) ns gs"
  from assms obtain k where k: "k < length ?nb"
    and c: "c = \<lparr>node = ?nb ! k,
        distance = haversineDistance (lat (ns ! i)) (lng (ns ! i)) (lat (ns ! (?nb ! k))) (lng (ns ! (?nb ! k))),
        trafficLevel = rnd i k * 0.5, accidentRisk = 0.1\<rparr>"
    by (auto simp: connect_def Let_def)
  have "?nb ! k \<in> set ?nb" using k by simp
  then have "?nb ! k < length ns \<and> nid (ns ! (?nb ! k)) \<noteq> nid (ns ! i)"
    by (auto simp: findNeighbors_def Let_def)
  then show ?thesis by (simp add: c)
qed

lemma grid_lng_loop_stuck:
  assumes "grid_lng_loop la lo hi gs ns = Some y"
  shows "\<not> (gs \<le> 0 \<and> lo \<le> hi)"
proof (rule grid_lng_loop.raw_induct
    [where P = "\<lambda>la lo hi gs ns y. \<not> (gs \<le> 0 \<and> lo \<le> hi)", OF _ assms])
  fix f :: "real \<Rightarrow> real \<Rightarrow> real \<Rightarrow> real \<Rightarrow> GraphNode list \<Rightarrow> GraphNode list option"
  fix la lo hi gs :: real and ns y :: "GraphNode list"
  assume IH: "\<And>la lo hi gs ns y. f la lo hi gs ns = Some y \<Longrightarrow> \<not> (gs \<le> 0 \<and> lo \<le> hi)"
    and step: "(if lo \<le> hi then f la (lo + gs) hi gs (ns @ [newGraphNode (length ns) la lo])
               else Some ns) = Some y"
  show "\<not> (gs \<le> 0 \<and> lo \<le> hi)"
  proof
    assume a: "gs \<le> 0 \<and> lo \<le> hi"
    then have "f la (lo + gs) hi gs (ns @ [newGraphNode (length ns) la lo]) = Some y"
      using step by simp
    then have "\<not> (gs \<le> 0 \<and> lo + gs \<le> hi)" by (rule IH)
    then show False using a by simp
  qed
qed

lemma grid_lat_loop_stuck:
  assumes "grid_lat_loop b gs la ns = Some y"
  shows "\<not> (gs \<le> 0 \<and> la \<le> maxLat b)"
proof (rule grid_lat_loop.raw_induct
    [where P = "\<lambda>b gs la ns y. \<not> (gs \<le> 0 \<and> la \<le> maxLat b)", OF _ assms])
  fix f :: "Bounds \<Rightarrow> real \<Rightarrow> real \<Rightarrow> GraphNode list \<Rightarrow> GraphNode list option"
  fix b :: Bounds and gs la :: real and ns y :: "GraphNode list"
  assume IH: "\<And>b gs la ns y. f b gs la ns = Some y \<Longrightarrow> \<not> (gs \<le> 0 \<and> la \<le> maxLat b)"
    and step: "(if la \<le> maxLat b
               then Option.bind (grid_lng_loop la (minLng b) (maxLng b) gs ns)
                      (\<lambda>ns'. f b gs (la + gs) ns')
               else Some ns) = Some y"
  show "\<not> (gs \<le> 0 \<and> la \<le> maxLat b)"
  proof
    assume a: "gs \<le> 0 \<and> la \<le> maxLat b"
    then obtain ns' where "f b gs (la + gs) ns' = Some y"
      using step by (auto simp: bind_eq_Some_conv)
    then have "\<not> (gs \<le> 0 \<and> la + gs \<le> maxLat b)" by (rule IH)
    then show False using a by simp
  qed
qed

lemma generateGridGraph_nonpositive:
  assumes "generateGridGraph rnd b gs = Some g" "gs \<le> 0"
  shows "g = []"
proof -
  from assms(1) obtain ns where ns: "grid_lat_loop b gs (minLat b) [] = Some ns"
    and g: "g = map (\<lambda>i. (ns ! i)\<lparr>connections := connect rnd ns gs i\<rparr>) [0..<length ns]"
    by (auto simp: generateGridGraph_def bind_eq_Some_conv)
  have "\<not> minLat b \<le> maxLat b" using grid_lat_loop_stuck [OF ns] assms(2) by simp
  then have "grid_lat_loop b gs (minLat b) [] = Some []"
    by (subst grid_lat_loop.simps) simp
  then have "ns = []" using ns by simp
  then show ?thesis using g by simp
qed

lemma generated_graph:
  assumes "0 < gs" "generateGridGraph rnd b gs = Some g"
  shows "length g = length (gridNodes b gs)"
    and "i < length g \<Longrightarrow> connections (g ! i) = connect rnd (gridNodes b gs) gs i"
    and "i < length g \<Longrightarrow> nid (g ! i) = i"
  using assms(2) unfolding generateGridGraph_eq [OF assms(1)]
  by (auto simp: gridNodes_nth gridNode_fields)

lemma generated_edge:
  assumes "0 < gs" "generateGridGraph rnd b gs = Some g" "i < length g"
    and "c \<in> set (connections (g ! i))"
  shows "node c < length g" "node c \<noteq> i" "nid (g ! node c) \<noteq> nid (g ! i)"
    and "distance c = haversineDistance (lat (gridNode b gs i)) (lng (gridNode b gs i))
           (lat (gridNode b gs (node c))) (lng (gridNode b gs (node c)))"
proof -
  note G = generated_graph [OF assms(1,2)]
  have i: "i < length (gridNodes b gs)" using assms(3) G(1) by simp
  have c: "c \<in> set (connect rnd (gridNodes b gs) gs i)" using assms(3,4) G(2) by simp
  note E = connect_edges [OF c]
  show n: "node c < length g" using E G(1) by simp
  have "nid (gridNodes b gs ! node c) \<noteq> nid (gridNodes b gs ! i)" using E by simp
  then have ne: "node c \<noteq> i" by auto
  then show "node c \<noteq> i" .
  show "nid (g ! node c) \<noteq> nid (g ! i)" using ne n assms(3) by (simp add: G(3))
  show "distance c = haversineDistance (lat (gridNode b gs i)) (lng (gridNode b gs i))
           (lat (gridNode b gs (node c))) (lng (gridNode b gs (node c)))"
    using E i n G(1) by (simp add: gridNodes_nth)
qed

lemma generated_noSelfEdge:
  assumes "generateGridGraph rnd b gs = Some g"
  shows "noSelfEdge g"
proof (cases "0 < gs")
  case True
  show ?thesis
    unfolding noSelfEdge_def list_all_iff
    using generated_edge(1-3) [OF True assms] by auto
next
  case False
  then have "g = []" using generateGridGraph_nonpositive [OF assms] by simp
  then show ?thesis by (simp add: noSelfEdge_def)
qed

section \<open>The triangle inequality of the haversine distance and the heuristic\<close>

lemma gram_identity:
  fixes x1 y1 z1 x2 y2 z2 x3 y3 z3 :: real
  shows "(x1\<^sup>2 + y1\<^sup>2 + z1\<^sup>2) * (x2\<^sup>2 + y2\<^sup>2 + z2\<^sup>2) * (x3\<^sup>2 + y3\<^sup>2 + z3\<^sup>2)
     + 2 * (x1 * x2 + y1 * y2 + z1 * z2) * (x2 * x3 + y2 * y3 + z2 * z3) * (x1 * x3 + y1 * y3 + z1 * z3)
     - (x1\<^sup>2 + y1\<^sup>2 + z1\<^sup>2) * (x2 * x3 + y2 * y3 + z2 * z3)\<^sup>2
     - (x2\<^sup>2 + y2\<^sup>2 + z2\<^sup>2) * (x1 * x3 + y1 * y3 + z1 * z3)\<^sup>2
     - (x3\<^sup>2 + y3\<^sup>2 + z3\<^sup>2) * (x1 * x2 + y1 * y2 + z1 * z2)\<^sup>2
     = (x1 * (y2 * z3 - z2 * y3) - y1 * (x2 * z3 - z2 * x3) + z1 * (x2 * y3 - y2 * x3))\<^sup>2"
  by algebra

lemma gram_unit:
  fixes x1 y1 z1 x2 y2 z2 x3 y3 z3 :: real
  assumes u: "x1\<^sup>2 + y1\<^sup>2 + z1\<^sup>2 = 1" "x2\<^sup>2 + y2\<^sup>2 + z2\<^sup>2 = 1" "x3\<^sup>2 + y3\<^sup>2 + z3\<^sup>2 = 1"
  shows "((x1 * x2 + y1 * y2 + z1 * z2) * (x2 * x3 + y2 * y3 + z2 * z3) - (x1 * x3 + y1 * y3 + z1 * z3))\<^sup>2
     \<le> (1 - (x1 * x2 + y1 * y2 + z1 * z2)\<^sup>2) * (1 - (x2 * x3 + y2 * y3 + z2 * z3)\<^sup>2)"
proof -
  define a where "a = x1 * x2 + y1 * y2 + z1 * z2"
  define b where "b = x2 * x3 + y2 * y3 + z2 * z3"
  define c where "c = x1 * x3 + y1 * y3 + z1 * z3"
  define d where "d = x1 * (y2 * z3 - z2 * y3) - y1 * (x2 * z3 - z2 * x3) + z1 * (x2 * y3 - y2 * x3)"
  have "1 * 1 * 1 + 2 * a * b * c - 1 * b\<^sup>2 - 1 * c\<^sup>2 - 1 * a\<^sup>2 = d\<^sup>2"
    using gram_identity [of x1 y1 z1 x2 y2 z2 x3 y3 z3]
    unfolding u a_def b_def c_def d_def .
  then have "(1 - a\<^sup>2) * (1 - b\<^sup>2) - (a * b - c)\<^sup>2 = d\<^sup>2"
    by (simp add: power2_eq_square algebra_simps)
  moreover have "0 \<le> d\<^sup>2" by simp
  ultimately have "(a * b - c)\<^sup>2 \<le> (1 - a\<^sup>2) * (1 - b\<^sup>2)" by linarith
  then show ?thesis unfolding a_def b_def c_def .
qed

lemma dot3_coords:
  "dot3 p1 l1 p2 l2 =
     (cos p1 * cos l1) * (cos p2 * cos l2) + (cos p1 * sin l1) * (cos p2 * sin l2) + sin p1 * sin p2"
  by (simp add: dot3_def cos_diff algebra_simps)

lemma unit_coords: "(cos p * cos l)\<^sup>2 + (cos p * sin l)\<^sup>2 + (sin p)\<^sup>2 = (1::real)"
proof -
  have cl: "(cos l)\<^sup>2 + (sin l)\<^sup>2 = 1" and cp: "(cos p)\<^sup>2 + (sin p)\<^sup>2 = 1" by simp_all
  have "(cos p * cos l)\<^sup>2 + (cos p * sin l)\<^sup>2 + (sin p)\<^sup>2
      = (cos p)\<^sup>2 * ((cos l)\<^sup>2 + (sin l)\<^sup>2) + (sin p)\<^sup>2"
    by (simp only: power_mult_distrib distrib_left)
  also have "\<dots> = 1" by (simp only: cl cp mult_1_right)
  finally show ?thesis .
qed

lemma dot3_gram:
  "(dot3 p1 l1 p2 l2 * dot3 p2 l2 p3 l3 - dot3 p1 l1 p3 l3)\<^sup>2
     \<le> (1 - (dot3 p1 l1 p2 l2)\<^sup>2) * (1 - (dot3 p2 l2 p3 l3)\<^sup>2)"
  unfolding dot3_coords
  by (rule gram_unit) (rule unit_coords)+

lemma arccos_triangle:
  assumes a: "\<bar>a\<bar> \<le> 1" and b: "\<bar>b\<bar> \<le> 1" and c: "\<bar>c\<bar> \<le> 1"
    and g: "(a * b - c)\<^sup>2 \<le> (1 - a\<^sup>2) * (1 - b\<^sup>2)"
  shows "arccos c \<le> arccos a + arccos b"
proof (cases "arccos a + arccos b \<le> pi")
  case False
  have "arccos c \<le> pi" using c by (intro arccos_ubound) (simp_all add: abs_le_iff)
  then show ?thesis using False by linarith
next
  case True
  have ra: "- 1 \<le> a" "a \<le> 1" and rb: "- 1 \<le> b" "b \<le> 1" and rc: "- 1 \<le> c" "c \<le> 1"
    using a b c by (simp_all add: abs_le_iff)
  have pos: "0 \<le> arccos a + arccos b"
    using arccos_lbound [OF ra] arccos_lbound [OF rb] by simp
  have na: "0 \<le> 1 - a\<^sup>2" using a by (simp add: abs_square_le_1)
  have nb: "0 \<le> 1 - b\<^sup>2" using b by (simp add: abs_square_le_1)
  have "a * b - c \<le> sqrt ((1 - a\<^sup>2) * (1 - b\<^sup>2))" using g by (rule real_le_rsqrt)
  also have "\<dots> = sqrt (1 - a\<^sup>2) * sqrt (1 - b\<^sup>2)" by (rule real_sqrt_mult)
  also have "\<dots> = sin (arccos a) * sin (arccos b)"
    by (simp add: sin_arccos [OF ra] sin_arccos [OF rb])
  finally have "a * b - sin (arccos a) * sin (arccos b) \<le> c" by simp
  then have le: "cos (arccos a + arccos b) \<le> c"
    by (simp add: cos_add cos_arccos [OF ra] cos_arccos [OF rb])
  have "arccos c \<le> arccos (cos (arccos a + arccos b))"
    using le rc by (intro arccos_le_arccos) simp_all
  also have "\<dots> = arccos a + arccos b" using pos True by (rule arccos_cos)
  finally show ?thesis .
qed

lemma Math_atan2_sin_cos:
  assumes "0 \<le> t" "t \<le> pi / 2"
  shows "Math_atan2 (sin t) (cos t) = t"
proof (cases "t = pi / 2")
  case True
  show ?thesis unfolding True by (simp add: Math_atan2_def)
next
  case False
  then have lt: "t < pi / 2" using assms(2) by simp
  have m: "- (pi / 2) < t" using assms(1) pi_gt_zero by linarith
  have "0 < cos t" using m lt by (rule cos_gt_zero_pi)
  moreover have "arctan (sin t / cos t) = t"
    using arctan_tan [OF m lt] by (simp add: tan_def)
  ultimately show ?thesis by (simp add: Math_atan2_def)
qed

lemma haversineDistance_arccos:
  "haversineDistance lat1 lng1 lat2 lng2 =
     6371 * arccos (dot3 (toRadians lat1) (toRadians lng1) (toRadians lat2) (toRadians lng2))"
proof -
  define d where "d = dot3 (toRadians lat1) (toRadians lng1) (toRadians lat2) (toRadians lng2)"
  define t where "t = arccos d / 2"
  have rd: "- 1 \<le> d" "d \<le> 1" using dot3_bounds unfolding d_def by simp_all
  have t: "0 \<le> t" "t \<le> pi / 2"
    using arccos_lbound [OF rd] arccos_ubound [OF rd] by (simp_all add: t_def)
  have cd: "cos (2 * t) = d" using cos_arccos [OF rd] by (simp add: t_def)
  have a: "haversine_a lat1 lng1 lat2 lng2 = (1 - d) / 2" by (simp add: haversine_a_dot d_def)
  have s2: "(sin t)\<^sup>2 = (1 - d) / 2" using cos_double_sin [of t] cd by simp
  have c2: "(cos t)\<^sup>2 = 1 - (1 - d) / 2" using cos_double_cos [of t] cd by (simp add: field_simps)
  have st: "0 \<le> sin t" using t pi_gt_zero by (intro sin_ge_zero) linarith+
  have ct: "0 \<le> cos t" using t pi_gt_zero by (intro cos_ge_zero) linarith+
  have "sqrt ((1 - d) / 2) = sin t" unfolding s2 [symmetric] using st by simp
  moreover have "sqrt (1 - (1 - d) / 2) = cos t" unfolding c2 [symmetric] using ct by simp
  ultimately have "Math_atan2 (sqrt ((1 - d) / 2)) (sqrt (1 - (1 - d) / 2)) = t"
    using Math_atan2_sin_cos [OF t] by simp
  then show ?thesis
    by (simp add: haversineDistance_def Let_def a t_def d_def [symmetric])
qed

lemma haversineDistance_triangle:
  "haversineDistance lat1 lng1 lat3 lng3
     \<le> haversineDistance lat1 lng1 lat2 lng2 + haversineDistance lat2 lng2 lat3 lng3"
proof -
  let ?d12 = "dot3 (toRadians lat1) (toRadians lng1) (toRadians lat2) (toRadians lng2)"
  let ?d23 = "dot3 (toRadians lat2) (toRadians lng2) (toRadians lat3) (toRadians lng3)"
  let ?d13 = "dot3 (toRadians lat1) (toRadians lng1) (toRadians lat3) (toRadians lng3)"
  have "arccos ?d13 \<le> arccos ?d12 + arccos ?d23"
    using dot3_bounds by (intro arccos_triangle dot3_gram) (simp_all add: abs_le_iff)
  then show ?thesis by (simp add: haversineDistance_arccos)
qed

lemma heuristic_triangle:
  "heuristic a c \<le> heuristic a b + heuristic b c"
  by (simp add: heuristic_def haversineDistance_triangle)

lemma heuristic_same: "heuristic a a = 0"
  by (simp add: heuristic_def haversineDistance_same)

lemma edgeOk_weight:
  assumes "edgeOk h s c"
  shows "distance c \<le> calculateEdgeWeight c options"
    and "heuristic (h s) (h (node c)) \<le> calculateEdgeWeight c options"
proof -
  have d: "distance c = heuristic (h s) (h (node c))"
    using assms by (simp add: edgeOk_def heuristic_def)
  have "0 \<le> distance c" unfolding d heuristic_def by (rule haversineDistance_nonneg)
  then show "distance c \<le> calculateEdgeWeight c options"
    using assms by (intro calculateEdgeWeight_ge) (simp_all add: edgeOk_def)
  then show "heuristic (h s) (h (node c)) \<le> calculateEdgeWeight c options"
    using d by simp
qed

lemma path_admissible:
  "validPath h s cs \<Longrightarrow> heuristic (h s) (h (pathEnd h s cs)) \<le> pathCost options cs"
proof (induction cs arbitrary: s)
  case Nil
  show ?case by (simp add: pathCost_def heuristic_same)
next
  case (Cons c cs)
  have e: "edgeOk h s c" and v: "validPath h (node c) cs" using Cons.prems by simp_all
  have "heuristic (h s) (h (pathEnd h (node c) cs))
      \<le> heuristic (h s) (h (node c)) + heuristic (h (node c)) (h (pathEnd h (node c) cs))"
    by (rule heuristic_triangle)
  also have "\<dots> \<le> calculateEdgeWeight c options + pathCost options cs"
    using edgeOk_weight(2) [OF e, of options] Cons.IH [OF v] by simp
  finally show ?case by (simp add: pathCost_def)
qed

lemma path_weights:
  "validPath h s cs \<Longrightarrow> \<forall>c\<in>set cs. distance c \<le> calculateEdgeWeight c options"
  by (induction cs arbitrary: s) (auto simp: edgeOk_weight(1))

lemma sample_path: "validPath (heap_of sampleGraph) 0 (connections (heap_of sampleGraph 0))"
  by (simp add: heap_of_def sampleGraph_def newGraphNode_def edgeOk_def)

section \<open>The sample graph\<close>

lemma sample_distance_pos:
  "0 < haversineDistance 0 2 0 0" "0 < haversineDistance 0 2 0 1" "0 < haversineDistance 0 0 0 1"
  by (rule haversineDistance_pos; simp)+

lemma sample_nearest_0: "findNearestNode sampleGraph \<lparr>lat = 0, lng = 0\<rparr> = Some 0"
  using haversineDistance_nonneg [of 0 0 0 1] haversineDistance_nonneg [of 0 0 0 2]
  by (simp add: findNearestNode_def sampleGraph_def heap_of_def newGraphNode_def upt_rec
      haversineDistance_same not_less)

lemma sample_nearest_2: "findNearestNode sampleGraph \<lparr>lat = 0, lng = 2\<rparr> = Some 2"
  using sample_distance_pos
  by (simp add: findNearestNode_def sampleGraph_def heap_of_def newGraphNode_def upt_rec
      haversineDistance_same Let_def)

lemma sample_connections:
  "node ` set (connections (heap_of sampleGraph 0)) = {1}"
  "node ` set (connections (heap_of sampleGraph 1)) = {0}"
  by (simp_all add: heap_of_def sampleGraph_def newGraphNode_def)

lemma sample_reachable: "reachable (heap_of sampleGraph) 0 r \<Longrightarrow> r = 0 \<or> r = 1"
proof (induction rule: reachable.induct)
  case here
  show ?case by simp
next
  case (step b c)
  from step.IH show ?case
  proof
    assume "b = 0"
    then have "node c \<in> node ` set (connections (heap_of sampleGraph 0))"
      using step.hyps(2) by blast
    then show ?thesis by (simp add: sample_connections)
  next
    assume "b = 1"
    then have "node c \<in> node ` set (connections (heap_of sampleGraph 1))"
      using step.hyps(2) by blast
    then have "node c \<in> {0}" by (simp only: sample_connections)
    then show ?thesis by simp
  qed
qed

lemma sample_nodes:
  "nid (heap_of sampleGraph 0) = 0" "nid (heap_of sampleGraph 1) = 1"
  "nid (heap_of sampleGraph 2) = 2"
  "lat (heap_of sampleGraph 0) = 0" "lng (heap_of sampleGraph 0) = 0"
  by (simp_all add: heap_of_def sampleGraph_def newGraphNode_def)

lemma sample_unreachable: "\<not> goalReachable (heap_of sampleGraph) 0 2"
proof
  assume "goalReachable (heap_of sampleGraph) 0 2"
  then obtain r where r: "reachable (heap_of sampleGraph) 0 r"
    and i: "nid (heap_of sampleGraph r) = nid (heap_of sampleGraph 2)"
    by (auto simp: goalReachable_def)
  from sample_reachable [OF r] i show False
    by (auto simp: sample_nodes sample_nodes [unfolded One_nat_def])
qed

lemma normalize_up_minus_180: "normalize_up (- 180 - 360 * real k) = - 180"
proof (induction k)
  case 0
  show ?case by (simp add: normalize_up_id)
next
  case (Suc k)
  have "- 180 - 360 * real (Suc k) < - 180" by simp
  then have "normalize_up (- 180 - 360 * real (Suc k)) = normalize_up (- 180 - 360 * real (Suc k) + 360)"
    by (rule normalize_up_step)
  also have "- 180 - 360 * real (Suc k) + 360 = - 180 - 360 * real k" by (simp add: algebra_simps)
  finally show ?case using Suc by simp
qed

lemma normalizeAngle_minus_180_iff:
  "normalizeAngle x = - 180 \<longleftrightarrow> (\<exists>k::nat. x = - 180 - 360 * real k)"
proof
  assume "\<exists>k::nat. x = - 180 - 360 * real k"
  then obtain k :: nat where k: "x = - 180 - 360 * real k" by blast
  have "0 \<le> 360 * real k" by simp
  then have "x \<le> 180" unfolding k by linarith
  then have "normalize_down x = x" by (rule normalize_down_id)
  then show "normalizeAngle x = - 180" by (simp add: normalizeAngle_def k normalize_up_minus_180)
next
  assume r: "normalizeAngle x = - 180"
  show "\<exists>k::nat. x = - 180 - 360 * real k"
  proof (cases "180 < x")
    case True
    then have "- 180 < normalize_down x" by (rule normalize_down_gt)
    then have "normalize_up (normalize_down x) = normalize_down x" by (intro normalize_up_id) simp
    with r \<open>- 180 < normalize_down x\<close> show ?thesis by (simp add: normalizeAngle_def)
  next
    case False
    then have "normalize_down x = x" by (intro normalize_down_id) simp
    then have "normalize_up x = - 180" using r by (simp add: normalizeAngle_def)
    moreover obtain k :: nat where "normalize_up x = x + 360 * real k"
      using normalize_up_shift by blast
    ultimately have "x = - 180 - 360 * real k" by linarith
    then show ?thesis by blast
  qed
qed

section \<open>The claims\<close>

text \<open>
  Claim C1, amended. If the start and the end coordinate map to the same nearest node of
  the graph, \<open>calculateOptimalRoute\<close> succeeds with a path of exactly one node, a total
  distance of 0, an estimated time of 0 and an empty list of instructions:
  \<open>generateInstructions\<close> returns no instruction for a route of fewer than two nodes.
\<close>

theorem trivial_route:
  assumes "findNearestNode graph start = Some s" "findNearestNode graph end' = Some s"
  shows "calculateOptimalRoute graph start end' preferences =
           Some (Success [(lng (heap_of graph s), lat (heap_of graph s))] [] trivialMetadata) \<and>
         totalDistanceKm trivialMetadata = 0 \<and> estimatedTimeMin trivialMetadata = 0 \<and>
         waypoints trivialMetadata = 1"
  using calculateOptimalRoute_same [OF assms] by (simp add: trivialMetadata_def)

theorem trivial_route_witness:
  "findNearestNode sampleGraph \<lparr>lat = 0, lng = 0\<rparr> = Some 0 \<and>
   calculateOptimalRoute sampleGraph \<lparr>lat = 0, lng = 0\<rparr> \<lparr>lat = 0, lng = 0\<rparr> defaultOptions =
     Some (Success [(0, 0)] [] trivialMetadata)"
  using trivial_route [OF sample_nearest_0 sample_nearest_0, of defaultOptions]
  by (simp add: sample_nearest_0 sample_nodes)

text \<open>
  Claim C1 as stated fails: for a start and an end at the first node of the sample graph
  the instruction list is empty, so \<open>arrive\<close> is not its only entry.
\<close>

theorem trivial_route_has_no_arrive:
  "calculateOptimalRoute sampleGraph \<lparr>lat = 0, lng = 0\<rparr> \<lparr>lat = 0, lng = 0\<rparr> defaultOptions =
     Some (Success [(0, 0)] [] trivialMetadata) \<and>
   map action (instructions (Success [(0, 0)] [] trivialMetadata)) \<noteq> [''arrive'']"
  using calculateOptimalRoute_same [OF sample_nearest_0 sample_nearest_0, of defaultOptions]
  by (simp add: sample_nodes)

text \<open>
  Claim C2. For every connection with a traffic level and an accident risk between 0 and
  1 (and a distance that is not negative, as every haversine distance is) and for all
  options, the weight is at least the distance. Hence along every path whose connections
  carry the haversine distance between their nodes, the heuristic at the start of the
  path (the haversine distance to its end) is at most the sum of the weights: the
  heuristic never overestimates the weighted cost.
\<close>

theorem weight_admissible:
  "(0 \<le> distance c \<and> 0 \<le> trafficLevel c \<and> trafficLevel c \<le> 1 \<and>
    0 \<le> accidentRisk c \<and> accidentRisk c \<le> 1
      \<longrightarrow> distance c \<le> calculateEdgeWeight c options) \<and>
   (validPath h s cs
      \<longrightarrow> (\<forall>e\<in>set cs. distance e \<le> calculateEdgeWeight e options) \<and>
          heuristic (h s) (h (pathEnd h s cs)) \<le> pathCost options cs)"
  using calculateEdgeWeight_ge [of c options] path_admissible [of h s cs options]
    path_weights [of h s cs options]
  by blast

theorem weight_admissible_witness:
  "validPath (heap_of sampleGraph) 0 (connections (heap_of sampleGraph 0)) \<and>
   distance (hd (connections (heap_of sampleGraph 0)))
     \<le> calculateEdgeWeight (hd (connections (heap_of sampleGraph 0))) defaultOptions \<and>
   heuristic (heap_of sampleGraph 0)
       (heap_of sampleGraph (pathEnd (heap_of sampleGraph) 0 (connections (heap_of sampleGraph 0))))
     \<le> pathCost defaultOptions (connections (heap_of sampleGraph 0))"
proof -
  have c: "connections (heap_of sampleGraph 0) \<noteq> []"
    by (simp add: heap_of_def sampleGraph_def newGraphNode_def)
  then have "hd (connections (heap_of sampleGraph 0)) \<in> set (connections (heap_of sampleGraph 0))"
    by simp
  then show ?thesis
    using sample_path
      weight_admissible [of "hd (connections (heap_of sampleGraph 0))" defaultOptions
        "heap_of sampleGraph" 0 "connections (heap_of sampleGraph 0)"]
    by blast
qed

text \<open>
  Claim C3, amended. For every edge and every incident within 200 metres of the edge's
  centre: adding the incident does not decrease the risk of the edge when its severity
  (5 when absent or 0) is not negative and the edge already has an incident within 200
  metres; replacing the incident by one at the same place with a severity at least as
  high does not decrease the risk; and for an edge with no incident within 200 metres,
  adding the incident replaces the risk the edge had (the baseline 0.1) by
  \<open>min 1 (severity / 50)\<close>.
\<close>

theorem risk_monotone:
  assumes "i < length g" "j < length (connections (g ! i))"
    and "td (edgePoint g (g ! i) (connections (g ! i) ! j)) (location a) < 200"
  shows
    "(0 \<le> severityOr5 a \<and>
      (\<exists>b\<in>set (xs @ ys). td (edgePoint g (g ! i) (connections (g ! i) ! j)) (location b) < 200)
        \<longrightarrow> riskAt td (xs @ ys) g i j \<le> riskAt td (xs @ a # ys) g i j) \<and>
     (location a' = location a \<and> severityOr5 a \<le> severityOr5 a'
        \<longrightarrow> riskAt td (xs @ a # ys) g i j \<le> riskAt td (xs @ a' # ys) g i j) \<and>
     (\<not> (\<exists>b\<in>set (xs @ ys). td (edgePoint g (g ! i) (connections (g ! i) ! j)) (location b) < 200)
        \<longrightarrow> riskAt td (xs @ ys) g i j = accidentRisk (connections (g ! i) ! j) \<and>
            riskAt td (xs @ a # ys) g i j = min 1 (severityOr5 a / 50))"
  using assms
    risk_add [where td = td and g = g and i = i and j = j and a = a and xs = xs and ys = ys]
    risk_raise [where td = td and g = g and i = i and j = j and a = a and a' = a' and xs = xs and ys = ys]
    risk_first [where td = td and g = g and i = i and j = j and a = a and xs = xs and ys = ys]
  by blast

theorem risk_monotone_witness:
  "riskAt turfDistance ([incident 2] @ []) edgeGraph 0 0
     \<le> riskAt turfDistance ([incident 2] @ incident 1 # []) edgeGraph 0 0 \<and>
   riskAt turfDistance ([incident 2] @ incident 1 # []) edgeGraph 0 0
     \<le> riskAt turfDistance ([incident 2] @ incident 3 # []) edgeGraph 0 0"
proof -
  have l: "0 < length edgeGraph" "0 < length (connections (edgeGraph ! 0))"
    by (simp_all add: edgeGraph_def newGraphNode_def)
  have n: "turfDistance (edgePoint edgeGraph (edgeGraph ! 0) (connections (edgeGraph ! 0) ! 0))
      (location (incident s)) < 200" for s
    using incident_near [of s] by (simp add: edge_centre)
  have s: "0 \<le> severityOr5 (incident 1)" "severityOr5 (incident 1) \<le> severityOr5 (incident 3)"
    "location (incident 3) = location (incident 1)"
    by (simp_all add: severityOr5_def incident_def)
  have b: "\<exists>b\<in>set ([incident 2] @ []).
      turfDistance (edgePoint edgeGraph (edgeGraph ! 0) (connections (edgeGraph ! 0) ! 0)) (location b) < 200"
    using n [of 2] by simp
  show ?thesis
    using risk_monotone [where td = turfDistance and g = edgeGraph and i = 0 and j = 0
        and a = "incident 1" and a' = "incident 3" and xs = "[incident 2]" and ys = "[]"]
      l n [of 1] s b
    by blast
qed

text \<open>
  Claim C3 as stated fails: an edge with the baseline risk 0.1 and no incident nearby
  gets the risk 0.02 when one incident of severity 1 is added at its centre.
\<close>

theorem first_incident_lowers_risk:
  "turfDistance (edgePoint edgeGraph (edgeGraph ! 0) (connections (edgeGraph ! 0) ! 0))
      (location (incident 1)) < 200 \<and>
   riskAt turfDistance [] edgeGraph 0 0 = 1 / 10 \<and>
   riskAt turfDistance [incident 1] edgeGraph 0 0 = 1 / 50 \<and>
   riskAt turfDistance [incident 1] edgeGraph 0 0 < riskAt turfDistance [] edgeGraph 0 0"
  using incident_near [of 1] by (simp add: edge_centre edgeGraph_risk)

text \<open>
  Claim C4. For every edge, all options and every rounding \<open>fl\<close> of the number format,
  the edge cost is the distance multiplied, one rounded product after the other and in
  exactly this order, by \<open>1 + trafficLevel * 2\<close> when \<open>avoidTraffic\<close> is set, then by
  \<open>1 + accidentRisk * 3\<close> when \<open>prioritizeSafety\<close> is set, then by \<open>1 + accidentRisk\<close>
  when the emergency type is \<open>fire\<close>: the fold from the left, starting from the distance,
  over the multipliers that apply, in the order listed. Without rounding it is the edge
  cost that the pathfinder uses, where the order of the factors does not show; under a
  rounding it does (lemma \<open>order_shows\<close>).
\<close>

theorem calculateEdgeWeight_in_order:
  "calculateEdgeWeight_rounded fl connection options =
     foldl (\<lambda>weight m. fl (weight * m)) (distance connection)
       ((if avoidTraffic options then [fl (1 + fl (trafficLevel connection * 2))] else []) @
        (if prioritizeSafety options then [fl (1 + fl (accidentRisk connection * 3))] else []) @
        (if emergencyType options = ''fire'' then [fl (1 + accidentRisk connection)] else [])) \<and>
   calculateEdgeWeight_rounded (\<lambda>x. x) connection options = calculateEdgeWeight connection options"
  by (simp add: calculateEdgeWeight_rounded_def calculateEdgeWeight_def Let_def)

text \<open>
  Claim C5. When no node with the id of the goal can be reached from the start node, the
  pathfinder returns (with no path), and \<open>calculateOptimalRoute\<close> returns the failure
  \<open>No valid route found\<close>.
\<close>

theorem no_route_is_failure:
  assumes "findNearestNode graph start = Some s" "findNearestNode graph end' = Some e"
    and "\<not> goalReachable (heap_of graph) s e"
  shows "aStarPathfinding (heap_of graph) s e preferences = Some None \<and>
         calculateOptimalRoute graph start end' preferences =
           Some (Failure ''No valid route found'')"
  using calculateOptimalRoute_unreachable [OF assms] .

theorem no_route_is_failure_witness:
  "findNearestNode sampleGraph \<lparr>lat = 0, lng = 0\<rparr> = Some 0 \<and>
   findNearestNode sampleGraph \<lparr>lat = 0, lng = 2\<rparr> = Some 2 \<and>
   \<not> goalReachable (heap_of sampleGraph) 0 2 \<and>
   aStarPathfinding (heap_of sampleGraph) 0 2 defaultOptions = Some None \<and>
   calculateOptimalRoute sampleGraph \<lparr>lat = 0, lng = 0\<rparr> \<lparr>lat = 0, lng = 2\<rparr> defaultOptions =
     Some (Failure ''No valid route found'')"
  using no_route_is_failure [OF sample_nearest_0 sample_nearest_2 sample_unreachable, of defaultOptions]
    sample_nearest_0 sample_nearest_2 sample_unreachable
  by simp

text \<open>
  Claim C6. A request whose \<open>userLocation\<close> has the latitude 0 or the longitude 0 is
  rejected with status 400, and no method of the routing service is called; when the
  request has no validation error, the response is the error
  \<open>Valid user location (lat, lng) is required\<close>.
\<close>

theorem calculateRoute_zero_coordinate:
  assumes "getProp (getProp (Some body) ''userLocation'') ''lat'' = Some (JNum 0) \<or>
           getProp (getProp (Some body) ''userLocation'') ''lng'' = Some (JNum 0)"
  shows "status (fst (calculateRoute rs errors body)) = 400 \<and>
         snd (calculateRoute rs errors body) = [] \<and>
         (errors = [] \<longrightarrow> payload (fst (calculateRoute rs errors body)) =
             ErrorMessage ''Valid user location (lat, lng) is required'')"
  using assms by (auto simp: calculateRoute_def Let_def)

theorem calculateRoute_zero_coordinate_witness:
  "status (fst (calculateRoute noService []
      (JObj [(''userLocation'', JObj [(''lat'', JNum 0), (''lng'', JNum 77)])]))) = 400 \<and>
   snd (calculateRoute noService []
      (JObj [(''userLocation'', JObj [(''lat'', JNum 0), (''lng'', JNum 77)])])) = [] \<and>
   payload (fst (calculateRoute noService []
      (JObj [(''userLocation'', JObj [(''lat'', JNum 0), (''lng'', JNum 77)])]))) =
      ErrorMessage ''Valid user location (lat, lng) is required''"
  using calculateRoute_zero_coordinate [of "JObj [(''userLocation'', JObj [(''lat'', JNum 0), (''lng'', JNum 77)])]" noService "[]"]
  by simp

text \<open>
  Claim C7, amended. At every intermediate node of a route the action is the
  classification of the turn angle: \<open>straight\<close> exactly when the absolute value of the
  angle is at most 30, \<open>turn_right\<close> exactly when the angle is strictly between 30 and
  150, \<open>turn_left\<close> exactly when it is strictly between -150 and -30, and \<open>u_turn\<close>
  exactly when its absolute value is at least 150.
\<close>

theorem turn_classification:
  assumes "1 \<le> i" "i + 1 < length (nodes r)"
  shows "action (generateInstructions h r ! i) = fst (turnAction (turnAngleAt h (nodes r) i)) \<and>
    (action (generateInstructions h r ! i) = ''straight'' \<longleftrightarrow> \<bar>turnAngleAt h (nodes r) i\<bar> \<le> 30) \<and>
    (action (generateInstructions h r ! i) = ''turn_right'' \<longleftrightarrow>
        30 < turnAngleAt h (nodes r) i \<and> turnAngleAt h (nodes r) i < 150) \<and>
    (action (generateInstructions h r ! i) = ''turn_left'' \<longleftrightarrow>
        - 150 < turnAngleAt h (nodes r) i \<and> turnAngleAt h (nodes r) i < - 30) \<and>
    (action (generateInstructions h r ! i) = ''u_turn'' \<longleftrightarrow> 150 \<le> \<bar>turnAngleAt h (nodes r) i\<bar>)"
proof -
  have "action (generateInstructions h r ! i) = fst (turnAction (turnAngleAt h (nodes r) i))"
    by (simp add: generateInstructions_nth [OF assms] intermediateInstruction_def Let_def)
  then show ?thesis using turnAction_cases [of "turnAngleAt h (nodes r) i"] by simp
qed

theorem turn_classification_witness:
  "turnAngleAt (heap_of turnGraph) (nodes \<lparr>nodes = [0, 1, 2], conns = []\<rparr>) 1 = 30 \<and>
   action (generateInstructions (heap_of turnGraph) \<lparr>nodes = [0, 1, 2], conns = []\<rparr> ! 1) = ''straight''"
  using turn_classification [of 1 "\<lparr>nodes = [0, 1, 2], conns = []\<rparr>" "heap_of turnGraph"] turnAngle_30
  by (simp add: turnAction_def)

text \<open>
  Claim C7 as stated fails at the boundary of the bands: a turn angle of exactly 30
  degrees, which the claim puts in the band from 30 to 150, is classified \<open>straight\<close>
  and not \<open>turn_right\<close>. On the route of \<open>turnGraph\<close>, through the points (1, 0),
  (0, 0) and (-60, -90), the bearings are 180 and -150 degrees, and the turn angle at
  the middle node is \<open>normalizeAngle (- 330) = 30\<close>.
\<close>

theorem turn_at_30_is_straight:
  "turnAngleAt (heap_of turnGraph) [0, 1, 2] 1 = 30 \<and>
   action (generateInstructions (heap_of turnGraph) \<lparr>nodes = [0, 1, 2], conns = []\<rparr> ! 1) \<noteq> ''turn_right''"
proof -
  have "generateInstructions (heap_of turnGraph) \<lparr>nodes = [0, 1, 2], conns = []\<rparr> ! 1
      = intermediateInstruction (heap_of turnGraph) \<lparr>nodes = [0, 1, 2], conns = []\<rparr> 1"
    by (rule generateInstructions_nth) simp_all
  then show ?thesis
    by (simp add: intermediateInstruction_def Let_def turnAngle_30 [unfolded One_nat_def]
        turnAction_def)
qed

text \<open>
  Claim C8, amended. For every angle \<open>x\<close>, \<open>normalizeAngle\<close> returns a value in the closed
  interval from -180 to 180 that differs from \<open>x\<close> by an integer multiple of 360; it
  returns -180 exactly for the angles \<open>-180 - 360 * k\<close>, \<open>k = 0, 1, 2, ...\<close>.
\<close>

theorem normalizeAngle_closed_interval:
  "- 180 \<le> normalizeAngle x \<and> normalizeAngle x \<le> 180 \<and>
   (\<exists>k::int. normalizeAngle x = x + 360 * of_int k) \<and>
   (normalizeAngle x = - 180 \<longleftrightarrow> (\<exists>k::nat. x = - 180 - 360 * real k))"
  using normalizeAngle_range [of x] normalizeAngle_shift [of x] normalizeAngle_minus_180_iff [of x]
  by simp

text \<open>
  Claim C8 as stated fails: the angle -180 is returned as it is, and -180 is not in the
  half-open interval from -180 (excluded) to 180.
\<close>

theorem normalizeAngle_minus_180:
  "normalizeAngle (- 180) = - 180 \<and>
   \<not> (- 180 < normalizeAngle (- 180) \<and> normalizeAngle (- 180) \<le> 180)"
  by (simp add: normalizeAngle_id)

end
